theory Spec2Isabelle
  imports Complex_Main "HOL-Library.Sublist" "HOL-Library.AList"
begin

section \<open>Data model\<close>

text \<open>
  The script \<^verbatim>\<open>script.py\<close> reads five sheets of an experiment workbook with pandas,
  assembles one summary row and merges it into a summary workbook.

  A cell of a pandas frame is a scalar. \<open>Null\<close> stands for every value that
  \<^verbatim>\<open>isnull()\<close> reports (NaN, None, NaT). \<open>Str\<close> is a Python \<^verbatim>\<open>str\<close>; a \<open>char\<close> is read as
  one code point below 256 (Latin-1), so the strings of the model are the Python strings
  made of such code points. \<open>Intg\<close> is an integer scalar, \<open>Float\<close> a finite float64 given
  by the rational number it denotes, \<open>PInf\<close> the float64 infinity, and \<open>Other\<close> any other
  scalar (a bool, a timestamp), given by the text \<^verbatim>\<open>str()\<close> returns for it.
\<close>

datatype cell = Null | Str string | Intg int | Float rat | PInf | Other string

datatype error = KeyError | ValueError | AttributeError

text \<open>
  A \<^verbatim>\<open>Series\<close> is the list of its cells, in row order; the row labels are the positions
  \<open>0, 1, \<dots>\<close>, as \<^verbatim>\<open>read_excel\<close> and \<^verbatim>\<open>pd.DataFrame(..., index=[0])\<close> produce them. A
  \<^verbatim>\<open>DataFrame\<close> is the list of its columns, in column order, each with its name.
  In the frames the script handles (read from a sheet, built from a dict, concatenated) the
  column names are pairwise different, and all columns of a frame have the same number of
  rows; \<open>wf_frame\<close> says so.
\<close>

type_synonym series = "cell list"
type_synonym dataframe = "(string \<times> series) list"

definition nrows :: "dataframe \<Rightarrow> nat" where
  "nrows df = (case df of [] \<Rightarrow> 0 | (_, col) # _ \<Rightarrow> length col)"

definition wf_frame :: "dataframe \<Rightarrow> bool" where
  "wf_frame df = (distinct (map fst df) \<and> list_all (\<lambda>(_, col). length col = nrows df) df)"

definition getitem :: "dataframe \<Rightarrow> string \<Rightarrow> error + series" where
  \<comment> \<open>\<^verbatim>\<open>sheet[header]\<close>: the column of that name, KeyError when there is none\<close>
  "getitem sheet header =
     (case map_of sheet header of None \<Rightarrow> Inl KeyError | Some col \<Rightarrow> Inr col)"

definition series_at0 :: "series \<Rightarrow> error + cell" where
  \<comment> \<open>\<^verbatim>\<open>series[0]\<close>: the cell of row label 0, KeyError when the series has no row\<close>
  "series_at0 col = (case col of [] \<Rightarrow> Inl KeyError | c # _ \<Rightarrow> Inr c)"

definition isnull_any :: "series \<Rightarrow> bool" where
  \<comment> \<open>\<^verbatim>\<open>series.isnull().values.any()\<close>\<close>
  "isnull_any col = list_ex (\<lambda>c. c = Null) col"

subsection \<open>Python's \<^verbatim>\<open>str\<close> on a cell\<close>

function str_of_nat :: "nat \<Rightarrow> string" where
  "str_of_nat n =
     (if n < 10 then [''0123456789'' ! n]
      else str_of_nat (n div 10) @ [''0123456789'' ! (n mod 10)])"
  by pat_completeness auto
termination
  by (relation "measure id") auto

declare str_of_nat.simps [simp del]

definition str_of_int :: "int \<Rightarrow> string" where
  "str_of_int i = (if i < 0 then CHR ''-'' # str_of_nat (nat (- i)) else str_of_nat (nat i))"

text \<open>
  The text of a float64 is Python's shortest round-trip representation; it is not
  modelled and enters as the parameter \<open>fstr\<close>.
\<close>

fun py_str :: "(rat \<Rightarrow> string) \<Rightarrow> cell \<Rightarrow> string" where
  "py_str fstr (Str s) = s"
| "py_str fstr (Intg i) = str_of_int i"
| "py_str fstr (Float r) = fstr r"
| "py_str fstr PInf = ''inf''"
| "py_str fstr (Other s) = s"
| "py_str fstr Null = ''nan''"

section \<open>\<^verbatim>\<open>fill_column\<close>\<close>

definition fill_column :: "(rat \<Rightarrow> string) \<Rightarrow> cell list \<Rightarrow> dataframe \<Rightarrow> string \<Rightarrow> error + cell list" where
  "fill_column fstr summary sheet header =
     (case getitem sheet header of
        Inl e \<Rightarrow> Inl e
      | Inr col \<Rightarrow>
          if col \<noteq> [] then
            if isnull_any col then Inr (summary @ [Str ''empty''])
            else (case series_at0 col of
                    Inl e \<Rightarrow> Inl e
                  | Inr c \<Rightarrow> Inr (summary @ [Str (py_str fstr c)]))
          else Inr (summary @ [Str ''empty'']))"


section \<open>\<^verbatim>\<open>fill_calculated_cell\<close>\<close>

subsection \<open>\<^verbatim>\<open>str.isnumeric\<close>\<close>

text \<open>
  \<^verbatim>\<open>str.isnumeric()\<close> holds for a non-empty string all of whose characters have a Unicode
  numeric value. Below 256 these are the ten digits \<^verbatim>\<open>0\<close> to \<^verbatim>\<open>9\<close> (48 to 57), the
  superscripts two, three and one (178, 179, 185) and the fractions one quarter, one half
  and three quarters (188, 189, 190).
\<close>

definition is_digit :: "char \<Rightarrow> bool" where
  "is_digit c = (48 \<le> (of_char c :: nat) \<and> (of_char c :: nat) \<le> 57)"

definition isnumeric_char :: "char \<Rightarrow> bool" where
  "isnumeric_char c =
     (is_digit c \<or> (of_char c :: nat) \<in> {178, 179, 185, 188, 189, 190})"

definition isnumeric :: "string \<Rightarrow> bool" where
  "isnumeric s = (s \<noteq> [] \<and> list_all isnumeric_char s)"

text \<open>A string of decimal digits: at least one character, all of them among \<^verbatim>\<open>0\<close> to \<^verbatim>\<open>9\<close>.\<close>

definition digit_string :: "string \<Rightarrow> bool" where
  "digit_string s = (s \<noteq> [] \<and> list_all is_digit s)"

definition nat_of_digits :: "string \<Rightarrow> nat" where
  "nat_of_digits s = foldl (\<lambda>a c. 10 * a + ((of_char c :: nat) - 48)) 0 s"

subsection \<open>\<^verbatim>\<open>pd.to_numeric\<close> and the division\<close>

text \<open>
  \<^verbatim>\<open>pd.to_numeric\<close> is applied to a string only after \<^verbatim>\<open>isnumeric\<close> has accepted it.
  With the default \<^verbatim>\<open>errors='raise'\<close> its parser reads ASCII digits only and raises
  ValueError for any other character; a parsed integer becomes a 64-bit integer scalar
  (\<^verbatim>\<open>int64\<close>, or \<^verbatim>\<open>uint64\<close> above \<open>2\<^sup>6\<^sup>3 - 1\<close>), and ValueError
  (\<^verbatim>\<open>Integer out of range\<close>) is raised above \<open>2\<^sup>6\<^sup>4 - 1\<close>.
\<close>

definition to_numeric :: "string \<Rightarrow> error + nat" where
  "to_numeric s =
     (if digit_string s \<and> nat_of_digits s \<le> 18446744073709551615
      then Inr (nat_of_digits s) else Inl ValueError)"

text \<open>
  The quotient of two such scalars is numpy's true division: both operands are converted to
  float64 and divided, each step rounding to the nearest float64, ties to even. \<open>float64\<close>
  is that rounding on the normal range of the format, which holds every integer below
  \<open>2\<^sup>6\<^sup>4\<close> and every quotient of two of them. A zero divisor gives infinity, or NaN for
  \<open>0 / 0\<close>, with a warning and no exception.
\<close>

function bitlen :: "nat \<Rightarrow> nat" where
  "bitlen n = (if n = 0 then 0 else Suc (bitlen (n div 2)))"
  by pat_completeness auto
termination
  by (relation "measure id") auto

declare bitlen.simps [simp del]

definition floor_log2 :: "rat \<Rightarrow> int" where
  \<comment> \<open>for \<open>0 < x\<close>, the \<open>e\<close> with \<open>2\<^sup>e \<le> x < 2\<^sup>e\<^sup>+\<^sup>1\<close>\<close>
  "floor_log2 x =
     (let (a, b) = quotient_of x;
          k = int (bitlen (nat a)) - int (bitlen (nat b))
      in if 2 powi k \<le> x then k else k - 1)"

definition round_half_even :: "rat \<Rightarrow> int" where
  "round_half_even x =
     (let f = \<lfloor>x\<rfloor>; d = x - of_int f
      in if d < 1 / 2 then f else if 1 / 2 < d then f + 1
         else if even f then f else f + 1)"

definition float64 :: "rat \<Rightarrow> rat" where
  "float64 x =
     (if x = 0 then 0
      else let u = 2 powi (floor_log2 \<bar>x\<bar> - 52)
           in of_int (round_half_even (x / u)) * u)"

definition true_divide :: "nat \<Rightarrow> nat \<Rightarrow> cell" where
  "true_divide t g =
     (if g = 0 then (if t = 0 then Null else PInf)
      else Float (float64 (float64 (of_nat t) / float64 (of_nat g))))"

definition growth_rate :: "string \<Rightarrow> string \<Rightarrow> error + cell" where
  \<comment> \<open>\<^verbatim>\<open>pd.to_numeric(thickness) / pd.to_numeric(growth_time)\<close>\<close>
  "growth_rate t g =
     (case to_numeric t of
        Inl e \<Rightarrow> Inl e
      | Inr tn \<Rightarrow> (case to_numeric g of Inl e \<Rightarrow> Inl e | Inr gn \<Rightarrow> Inr (true_divide tn gn)))"

subsection \<open>Reading and writing the cell of row 0\<close>

definition loc0 :: "dataframe \<Rightarrow> string \<Rightarrow> error + cell" where
  \<comment> \<open>\<^verbatim>\<open>dataframe.loc[0, column]\<close>: KeyError without that column or without row 0\<close>
  "loc0 df c =
     (case map_of df c of
        None \<Rightarrow> Inl KeyError
      | Some col \<Rightarrow> (case col of [] \<Rightarrow> Inl KeyError | x # _ \<Rightarrow> Inr x))"

text \<open>
  \<^verbatim>\<open>dataframe.loc[0, column] = v\<close> sets one cell. Where the frame has no row 0 the
  assignment first adds that row, null in every column; where it has no such column it
  adds the column, null in every other row.
\<close>

definition set_loc0 :: "dataframe \<Rightarrow> string \<Rightarrow> cell \<Rightarrow> dataframe" where
  "set_loc0 df c v =
     (let df1 = (if nrows df = 0 then map (\<lambda>(k, col). (k, [Null])) df else df)
      in if c \<in> set (map fst df1)
         then map (\<lambda>(k, col). (k, if k = c then col[0 := v] else col)) df1
         else df1 @ [(c, v # replicate (nrows df1 - 1) Null)])"

text \<open>
  \<^verbatim>\<open>isnumeric\<close> is a method of \<^verbatim>\<open>str\<close>: on any other scalar the call raises
  AttributeError. Python's \<^verbatim>\<open>and\<close> does not read the growth time when the thickness is
  not numeric.
\<close>

definition fill_calculated_cell :: "dataframe \<Rightarrow> error + dataframe" where
  "fill_calculated_cell dataframe =
     (case loc0 dataframe ''Thickness'' of
        Inl e \<Rightarrow> Inl e
      | Inr (Str t) \<Rightarrow>
          if isnumeric t then
            (case loc0 dataframe ''Growth Time'' of
               Inl e \<Rightarrow> Inl e
             | Inr (Str g) \<Rightarrow>
                 if isnumeric g then
                   (case growth_rate t g of
                      Inl e \<Rightarrow> Inl e
                    | Inr r \<Rightarrow> Inr (set_loc0 dataframe ''Growth Rate'' r))
                 else Inr dataframe
             | Inr _ \<Rightarrow> Inl AttributeError)
          else Inr dataframe
      | Inr _ \<Rightarrow> Inl AttributeError)"

section \<open>\<^verbatim>\<open>generate_overview\<close>\<close>

record workbook =
  overview :: dataframe
  growth_run :: dataframe
  afm_reflectance_sem :: dataframe
  hrxrd :: dataframe
  sample_cut :: dataframe

definition overview_headers :: "string list" where
  "overview_headers =
     [''Sample'', ''Date'', ''Film'', ''Substrate'', ''Substrate T'', ''Carrier Gas'',
      ''Growth Time'']"

definition quantities :: "string list" where
  "quantities = [''Bubbler Material'', ''Gas Cylinder Material'', ''Partial Pressure'']"

fun fill_columns :: "(rat \<Rightarrow> string) \<Rightarrow> cell list \<Rightarrow> dataframe \<Rightarrow> string list \<Rightarrow> error + cell list" where
  "fill_columns fstr summary sheet [] = Inr summary"
| "fill_columns fstr summary sheet (h # hs) =
     (case fill_column fstr summary sheet h of
        Inl e \<Rightarrow> Inl e
      | Inr summary' \<Rightarrow> fill_columns fstr summary' sheet hs)"

text \<open>
  The scan of the GrowthRun sheet: the inner loop runs over all three quantities for each
  column name and has no \<^verbatim>\<open>break\<close>; \<^verbatim>\<open>quantity in growthrun_header\<close> is the substring
  test.
\<close>

fun scan_quantities ::
  "dataframe \<Rightarrow> string \<Rightarrow> string list \<Rightarrow> string list \<times> cell list \<Rightarrow> error + string list \<times> cell list" where
  "scan_quantities gr h [] acc = Inr acc"
| "scan_quantities gr h (q # qs) (hs, vs) =
     (if sublist q h then
        (case getitem gr h of
           Inl e \<Rightarrow> Inl e
         | Inr col \<Rightarrow>
             if col \<noteq> [] then
               (case series_at0 col of
                  Inl e \<Rightarrow> Inl e
                | Inr c \<Rightarrow> scan_quantities gr h qs (hs @ [h], vs @ [c]))
             else scan_quantities gr h qs (hs @ [h], vs))
      else scan_quantities gr h qs (hs, vs))"

fun scan_columns ::
  "dataframe \<Rightarrow> string list \<Rightarrow> string list \<times> cell list \<Rightarrow> error + string list \<times> cell list" where
  "scan_columns gr [] acc = Inr acc"
| "scan_columns gr (h # rest) acc =
     (case scan_quantities gr h quantities acc of
        Inl e \<Rightarrow> Inl e
      | Inr acc' \<Rightarrow> scan_columns gr rest acc')"

definition assemble :: "(rat \<Rightarrow> string) \<Rightarrow> workbook \<Rightarrow> error + string list \<times> cell list" where
  "assemble fstr ex =
     (case fill_columns fstr [] (overview ex) overview_headers of
        Inl e \<Rightarrow> Inl e
      | Inr d1 \<Rightarrow>
     (case fill_column fstr d1 (afm_reflectance_sem ex) ''Thickness'' of
        Inl e \<Rightarrow> Inl e
      | Inr d2 \<Rightarrow>
     (case scan_columns (growth_run ex) (map fst (growth_run ex))
             (overview_headers @ [''Thickness'', ''Growth Rate''], d2 @ [Str ''put calc here'']) of
        Inl e \<Rightarrow> Inl e
      | Inr (hs, d3) \<Rightarrow>
     (case fill_column fstr d3 (hrxrd ex) ''Phase'' of
        Inl e \<Rightarrow> Inl e
      | Inr d4 \<Rightarrow>
     (case fill_column fstr d4 (sample_cut ex) ''Collaborator'' of
        Inl e \<Rightarrow> Inl e
      | Inr d5 \<Rightarrow>
          Inr (hs @ [''Phase'', ''Collaborator'', ''Notes''], d5 @ [Str ''put notes here'']))))))"

text \<open>
  The dict comprehension over \<^verbatim>\<open>zip(summary_headers, summary_data)\<close>: \<^verbatim>\<open>zip\<close> stops at the
  shorter list; a key met again keeps its place and takes the later value.
  \<^verbatim>\<open>pd.DataFrame(summary_dict, index=[0])\<close> is the frame of one row.
\<close>

definition summary_dict :: "string list \<Rightarrow> cell list \<Rightarrow> (string \<times> cell) list" where
  "summary_dict hs vs = foldl (\<lambda>d (k, v). AList.update k v d) [] (zip hs vs)"

definition one_row_frame :: "(string \<times> cell) list \<Rightarrow> dataframe" where
  "one_row_frame d = map (\<lambda>(k, v). (k, [v])) d"

definition make_record :: "string list \<Rightarrow> cell list \<Rightarrow> dataframe" where
  "make_record hs vs = one_row_frame (summary_dict hs vs)"

definition summary_filename :: "nat \<Rightarrow> string" where
  "summary_filename n = ''summary_'' @ str_of_nat n @ ''cols.xlsx''"

text \<open>
  \<^verbatim>\<open>pd.concat([existing, new], ignore_index=True)\<close> puts the rows of the second frame under
  those of the first. Columns are matched by name: the result has the columns of the first
  frame, then those only the second has, and a row is null in a column its frame lacks.
\<close>

definition concat_frames :: "dataframe \<Rightarrow> dataframe \<Rightarrow> dataframe" where
  "concat_frames existing new =
     map (\<lambda>(k, col). (k, col @ (case map_of new k of
                                    Some col2 \<Rightarrow> col2
                                  | None \<Rightarrow> replicate (nrows new) Null))) existing
     @ map (\<lambda>(k, col2). (k, replicate (nrows existing) Null @ col2))
         (filter (\<lambda>(k, col2). map_of existing k = None) new)"

text \<open>
  The merge of lines 112 to 121: \<open>n\<close> is \<^verbatim>\<open>len(summary_headers)\<close>, \<open>prior\<close> the Summary sheet
  of the file of the computed name when the working directory has one. The result is the
  frame handed to \<^verbatim>\<open>write_excel_file\<close>.
\<close>

definition merge_summary :: "nat \<Rightarrow> dataframe \<Rightarrow> dataframe option \<Rightarrow> dataframe" where
  "merge_summary n new_dataframe prior =
     (case prior of
        Some existing_dataframe \<Rightarrow>
          if length existing_dataframe = n
          then concat_frames existing_dataframe new_dataframe
          else new_dataframe
      | None \<Rightarrow> new_dataframe)"

text \<open>
  The working directory maps a file name to the Summary sheet the file holds. The five
  sheets of the input workbook are given as loaded.
\<close>

type_synonym directory = "string \<rightharpoonup> dataframe"

definition new_record :: "(rat \<Rightarrow> string) \<Rightarrow> workbook \<Rightarrow> error + nat \<times> dataframe" where
  \<comment> \<open>lines 66 to 111: the header count and the record after \<^verbatim>\<open>fill_calculated_cell\<close>\<close>
  "new_record fstr ex =
     (case assemble fstr ex of
        Inl e \<Rightarrow> Inl e
      | Inr (hs, vs) \<Rightarrow>
          (case fill_calculated_cell (make_record hs vs) of
             Inl e \<Rightarrow> Inl e
           | Inr new_dataframe \<Rightarrow> Inr (length hs, new_dataframe)))"

definition generate_overview :: "(rat \<Rightarrow> string) \<Rightarrow> workbook \<Rightarrow> directory \<Rightarrow> error + directory" where
  "generate_overview fstr ex dir =
     (case new_record fstr ex of
        Inl e \<Rightarrow> Inl e
      | Inr (n, new_dataframe) \<Rightarrow>
          Inr (dir(summary_filename n \<mapsto>
                 merge_summary n new_dataframe (dir (summary_filename n)))))"

text \<open>
  The cell of a frame at a row and a column name, null where the frame has no such cell:
  the reading under which a row is compared before and after \<^verbatim>\<open>pd.concat\<close> or an assignment
  that adds a column.
\<close>

definition cell_at :: "dataframe \<Rightarrow> nat \<Rightarrow> string \<Rightarrow> cell" where
  "cell_at df i k =
     (case map_of df k of
        None \<Rightarrow> Null
      | Some col \<Rightarrow> if i < length col then col ! i else Null)"

section \<open>Notions used to state the claims\<close>

text \<open>
  A GrowthRun column name matches when it contains one of the three quantities;
  \<open>match_count\<close> is the number of quantities it contains. \<open>matched_columns\<close> lists the
  matching names once each, in sheet order; \<open>scan_headers\<close> and \<open>scan_values\<close> list, in
  sheet order, each name and the first cell of its column once for every quantity the name
  contains, a column without rows giving no value.
\<close>

definition matches :: "string \<Rightarrow> bool" where
  "matches h = list_ex (\<lambda>q. sublist q h) quantities"

definition match_count :: "string \<Rightarrow> nat" where
  "match_count h = length (filter (\<lambda>q. sublist q h) quantities)"

definition matched_columns :: "dataframe \<Rightarrow> string list" where
  "matched_columns gr = filter matches (map fst gr)"

definition scan_headers :: "dataframe \<Rightarrow> string list" where
  "scan_headers gr = concat (map (\<lambda>h. replicate (match_count h) h) (map fst gr))"

definition scan_value :: "dataframe \<Rightarrow> string \<Rightarrow> cell list" where
  "scan_value gr h =
     (case map_of gr h of
        Some (c # cs) \<Rightarrow> replicate (match_count h) c
      | _ \<Rightarrow> [])"

definition scan_values :: "dataframe \<Rightarrow> cell list" where
  "scan_values gr = concat (map (scan_value gr) (map fst gr))"

text \<open>
  The sheets of a workbook have the columns the script reads by name; every matching
  GrowthRun column has a row.
\<close>

definition required_columns :: "workbook \<Rightarrow> bool" where
  "required_columns ex =
     (set overview_headers \<subseteq> fst ` set (overview ex)
      \<and> ''Thickness'' \<in> fst ` set (afm_reflectance_sem ex)
      \<and> ''Phase'' \<in> fst ` set (hrxrd ex)
      \<and> ''Collaborator'' \<in> fst ` set (sample_cut ex))"

definition matched_nonempty :: "dataframe \<Rightarrow> bool" where
  "matched_nonempty gr = list_all (\<lambda>(h, col). matches h \<longrightarrow> col \<noteq> []) gr"

section \<open>Properties of \<^verbatim>\<open>fill_column\<close>\<close>

lemma fill_column_absent:
  "map_of sheet header = None \<Longrightarrow> fill_column fstr summary sheet header = Inl KeyError"
  by (simp add: fill_column_def getitem_def)

lemma fill_column_no_rows:
  "map_of sheet header = Some [] \<Longrightarrow>
   fill_column fstr summary sheet header = Inr (summary @ [Str ''empty''])"
  by (simp add: fill_column_def getitem_def)

lemma fill_column_some_null:
  "map_of sheet header = Some col \<Longrightarrow> Null \<in> set col \<Longrightarrow>
   fill_column fstr summary sheet header = Inr (summary @ [Str ''empty''])"
  by (auto simp: fill_column_def getitem_def isnull_any_def list_ex_iff)

lemma fill_column_no_null:
  "map_of sheet header = Some (c # col) \<Longrightarrow> Null \<notin> set (c # col) \<Longrightarrow>
   fill_column fstr summary sheet header = Inr (summary @ [Str (py_str fstr c)])"
  by (auto simp: fill_column_def getitem_def isnull_any_def list_ex_iff series_at0_def)

section \<open>Claims about \<^verbatim>\<open>fill_column\<close>\<close>

text \<open>
  Claim C2, as amended. For every table and field name, \<^verbatim>\<open>fill_column\<close> appends the
  sentinel \<^verbatim>\<open>empty\<close> and raises nothing when the named column is present and has no row
  or a null first cell. When the column is absent, \<^verbatim>\<open>sheet[header]\<close> raises KeyError:
  the sentinel is not produced.
\<close>

theorem fill_column_sentinel_or_keyerror:
  "(map_of sheet header = Some col \<and> (col = [] \<or> series_at0 col = Inr Null) \<longrightarrow>
      fill_column fstr summary sheet header = Inr (summary @ [Str ''empty'']))
   \<and> (map_of sheet header = None \<longrightarrow>
      fill_column fstr summary sheet header = Inl KeyError)"
proof (intro conjI impI)
  assume a: "map_of sheet header = Some col \<and> (col = [] \<or> series_at0 col = Inr Null)"
  show "fill_column fstr summary sheet header = Inr (summary @ [Str ''empty''])"
  proof (cases col)
    case Nil
    with a show ?thesis by (simp add: fill_column_no_rows)
  next
    case (Cons c cs)
    with a have "Null \<in> set col" by (simp add: series_at0_def)
    with a show ?thesis by (simp add: fill_column_some_null)
  qed
next
  assume "map_of sheet header = None"
  then show "fill_column fstr summary sheet header = Inl KeyError"
    by (rule fill_column_absent)
qed

theorem fill_column_sentinel_or_keyerror_witness:
  "fill_column (\<lambda>r. []) [Str ''A1''] [(''Phase'', [])] ''Phase'' = Inr [Str ''A1'', Str ''empty'']
   \<and> fill_column (\<lambda>r. []) [Str ''A1''] [(''Phase'', [Null, Str ''cubic''])] ''Phase''
       = Inr [Str ''A1'', Str ''empty'']
   \<and> fill_column (\<lambda>r. []) [Str ''A1''] [(''Film'', [Str ''GaN''])] ''Phase'' = Inl KeyError"
  using fill_column_sentinel_or_keyerror
          [of "[(''Phase'', [])]" "''Phase''" "[]" "\<lambda>r. []" "[Str ''A1'']"]
        fill_column_sentinel_or_keyerror
          [of "[(''Phase'', [Null, Str ''cubic''])]" "''Phase''" "[Null, Str ''cubic'']"
              "\<lambda>r. []" "[Str ''A1'']"]
        fill_column_sentinel_or_keyerror
          [of "[(''Film'', [Str ''GaN''])]" "''Phase''" "[]" "\<lambda>r. []" "[Str ''A1'']"]
  by (simp add: series_at0_def)

text \<open>
  The claim as stated fails where the column is absent: the call raises KeyError instead of
  returning the sentinel.
\<close>

theorem fill_column_absent_counterexample:
  "fill_column (\<lambda>r. []) [] [(''Film'', [Str ''GaN''])] ''Phase'' = Inl KeyError"
  by (simp add: fill_column_def getitem_def)

text \<open>
  Claim C3, as amended. For every table whose named column is present and not empty,
  \<^verbatim>\<open>fill_column\<close> appends the string presentation of the first cell when no cell of the
  column is null, and the sentinel \<^verbatim>\<open>empty\<close> when any cell of the column is null: the
  null test ranges over the whole column, not over the first cell alone.
\<close>

theorem fill_column_first_cell_unless_null:
  "map_of sheet header = Some (c # col) \<Longrightarrow>
   fill_column fstr summary sheet header =
     Inr (summary @ [if Null \<in> set (c # col) then Str ''empty'' else Str (py_str fstr c)])"
  using fill_column_some_null [of sheet header "c # col" fstr summary]
        fill_column_no_null [of sheet header c col fstr summary]
  by (cases "Null \<in> set (c # col)") simp_all

theorem fill_column_first_cell_unless_null_witness:
  "fill_column (\<lambda>r. []) [] [(''Phase'', [Str ''cubic'', Str ''hex''])] ''Phase'' = Inr [Str ''cubic'']
   \<and> fill_column (\<lambda>r. []) [] [(''Growth Time'', [Intg 120])] ''Growth Time'' = Inr [Str ''120'']"
  using fill_column_first_cell_unless_null
          [of "[(''Phase'', [Str ''cubic'', Str ''hex''])]" "''Phase''" "Str ''cubic''"
              "[Str ''hex'']" "\<lambda>r. []" "[]"]
        fill_column_first_cell_unless_null
          [of "[(''Growth Time'', [Intg 120])]" "''Growth Time''" "Intg 120" "[]" "\<lambda>r. []" "[]"]
  by (simp add: str_of_int_def str_of_nat.simps)

text \<open>
  The claim as stated fails on a column whose first cell is not null and whose second cell
  is: the sentinel is appended, not the first cell.
\<close>

theorem fill_column_later_null_counterexample:
  "series_at0 [Str ''cubic'', Null] = Inr (Str ''cubic'')
   \<and> fill_column (\<lambda>r. []) [] [(''Phase'', [Str ''cubic'', Null])] ''Phase'' = Inr [Str ''empty'']"
  by (simp add: fill_column_def getitem_def series_at0_def isnull_any_def)

section \<open>Properties of \<^verbatim>\<open>fill_calculated_cell\<close>\<close>


lemma isnumeric_no_point: "CHR ''.'' \<in> set s \<Longrightarrow> \<not> isnumeric s"
proof
  assume "CHR ''.'' \<in> set s" and "isnumeric s"
  then have "isnumeric_char CHR ''.''" by (simp add: isnumeric_def list_all_iff)
  then show False by (simp add: isnumeric_char_def is_digit_def)
qed

lemma to_numeric_digits:
  "digit_string s \<Longrightarrow> nat_of_digits s \<le> 18446744073709551615 \<Longrightarrow>
   to_numeric s = Inr (nat_of_digits s)"
  by (simp add: to_numeric_def)

lemma map_of_cell_update:
  "map_of (map (\<lambda>(k, col). (k, if k = c then col[0 := v] else col)) df) k
     = map_option (\<lambda>col. if k = c then col[0 := v] else col) (map_of df k)"
  by (induction df) auto

lemma wf_frame_length:
  "wf_frame df \<Longrightarrow> map_of df k = Some col \<Longrightarrow> length col = nrows df"
  by (auto simp: wf_frame_def list_all_iff dest!: map_of_SomeD)

lemma loc0_has_row:
  "wf_frame df \<Longrightarrow> loc0 df k = Inr x \<Longrightarrow> nrows df \<noteq> 0"
  by (auto simp: loc0_def split: option.splits list.splits dest: wf_frame_length)

lemma set_loc0_names:
  "nrows df \<noteq> 0 \<Longrightarrow>
   map fst (set_loc0 df c v) = (if c \<in> set (map fst df) then map fst df else map fst df @ [c])"
  by (auto simp: set_loc0_def split: prod.splits)

lemma set_loc0_other_column:
  "nrows df \<noteq> 0 \<Longrightarrow> k \<noteq> c \<Longrightarrow> map_of (set_loc0 df c v) k = map_of df k"
proof -
  assume n: "nrows df \<noteq> 0" and k: "k \<noteq> c"
  have "map_of (map (\<lambda>(k, col). (k, if k = c then col[0 := v] else col)) df) k = map_of df k"
    using k by (simp add: map_of_cell_update option.map_ident)
  then show ?thesis using n k by (auto simp: set_loc0_def map_add_def split: option.splits)
qed

lemma set_loc0_same_column:
  assumes n: "nrows df \<noteq> 0"
  shows "map_of (set_loc0 df c v) c =
           (case map_of df c of
              Some col \<Rightarrow> Some (col[0 := v])
            | None \<Rightarrow> Some (v # replicate (nrows df - 1) Null))"
proof (cases "map_of df c")
  case None
  then have "c \<notin> set (map fst df)" by (simp add: map_of_eq_None_iff)
  with None n show ?thesis by (simp add: set_loc0_def map_add_def)
next
  case (Some col)
  then have "c \<in> set (map fst df)" by (metis map_of_eq_None_iff option.distinct(1) set_map)
  moreover have "map_of (map (\<lambda>(k, col). (k, if k = c then col[0 := v] else col)) df) c
                   = Some (col[0 := v])"
    using Some by (simp add: map_of_cell_update)
  ultimately show ?thesis using Some n by (simp add: set_loc0_def)
qed


lemma set_loc0_later_rows:
  assumes "wf_frame df" and "nrows df \<noteq> 0" and "0 < i"
  shows "cell_at (set_loc0 df c v) i c = cell_at df i c"
proof (cases "map_of df c")
  case None
  with assms show ?thesis
    by (cases i) (auto simp: cell_at_def set_loc0_same_column)
next
  case (Some col)
  with assms show ?thesis by (simp add: cell_at_def set_loc0_same_column)
qed

lemma fill_calculated_cell_result:
  "fill_calculated_cell df = Inr df' \<Longrightarrow>
   df' = df \<or> (\<exists>x r. loc0 df ''Thickness'' = Inr x \<and> df' = set_loc0 df ''Growth Rate'' r)"
  by (auto simp: fill_calculated_cell_def split: sum.splits cell.splits if_splits)

lemma fill_calculated_cell_skip:
  "loc0 df ''Thickness'' = Inr (Str t) \<Longrightarrow> loc0 df ''Growth Time'' = Inr (Str g) \<Longrightarrow>
   \<not> isnumeric t \<or> \<not> isnumeric g \<Longrightarrow> fill_calculated_cell df = Inr df"
  by (auto simp: fill_calculated_cell_def)

lemma fill_calculated_cell_compute:
  "loc0 df ''Thickness'' = Inr (Str t) \<Longrightarrow> loc0 df ''Growth Time'' = Inr (Str g) \<Longrightarrow>
   isnumeric t \<Longrightarrow> isnumeric g \<Longrightarrow> growth_rate t g = Inr r \<Longrightarrow>
   fill_calculated_cell df = Inr (set_loc0 df ''Growth Rate'' r)"
  by (simp add: fill_calculated_cell_def)

section \<open>Claims about \<^verbatim>\<open>fill_calculated_cell\<close>\<close>




text \<open>
  Claim C5, as amended. For every record in which the Thickness or the Growth Time string
  of the first row is not numeric in the sense of \<^verbatim>\<open>str.isnumeric\<close> (it is empty or has a
  character without a numeric value, as the sentinel \<^verbatim>\<open>empty\<close> and every string with a
  decimal point have), \<^verbatim>\<open>fill_calculated_cell\<close> returns the record unchanged, so the
  Growth Rate field keeps the value it had.
\<close>

theorem fill_calculated_cell_not_numeric_unchanged:
  assumes "loc0 df ''Thickness'' = Inr (Str t)"
    and "loc0 df ''Growth Time'' = Inr (Str g)"
    and "\<not> isnumeric t \<or> \<not> isnumeric g"
  shows "fill_calculated_cell df = Inr df"
  using assms by (rule fill_calculated_cell_skip)

theorem fill_calculated_cell_not_numeric_unchanged_witness:
  "fill_calculated_cell
     [(''Growth Time'', [Str ''120'']), (''Thickness'', [Str ''empty'']),
      (''Growth Rate'', [Str ''put calc here''])]
   = Inr [(''Growth Time'', [Str ''120'']), (''Thickness'', [Str ''empty'']),
          (''Growth Rate'', [Str ''put calc here''])]
   \<and> fill_calculated_cell
     [(''Growth Time'', [Str ''1.5'']), (''Thickness'', [Str ''600'']),
      (''Growth Rate'', [Str ''put calc here''])]
   = Inr [(''Growth Time'', [Str ''1.5'']), (''Thickness'', [Str ''600'']),
          (''Growth Rate'', [Str ''put calc here''])]"
proof -
  have e: "\<not> isnumeric ''empty''"
    by (simp add: isnumeric_def isnumeric_char_def is_digit_def)
  have p: "\<not> isnumeric ''1.5''"
    by (rule isnumeric_no_point) simp
  show ?thesis
    using fill_calculated_cell_not_numeric_unchanged
            [of "[(''Growth Time'', [Str ''120'']), (''Thickness'', [Str ''empty'']),
                  (''Growth Rate'', [Str ''put calc here''])]" "''empty''" "''120''"]
          fill_calculated_cell_not_numeric_unchanged
            [of "[(''Growth Time'', [Str ''1.5'']), (''Thickness'', [Str ''600'']),
                  (''Growth Rate'', [Str ''put calc here''])]" "''600''" "''1.5''"]
          e p
    by (simp add: loc0_def)
qed

text \<open>
  The claim as stated fails on a string that is not made of decimal digits and that
  \<^verbatim>\<open>isnumeric\<close> accepts, such as the one-character string of code point 189 (the fraction
  one half): the guard lets it pass and \<^verbatim>\<open>pd.to_numeric\<close> raises ValueError.
\<close>

theorem fill_calculated_cell_fraction_counterexample:
  "\<not> digit_string [CHR 0xBD]
   \<and> fill_calculated_cell
        [(''Growth Time'', [Str ''120'']), (''Thickness'', [Str [CHR 0xBD]]),
         (''Growth Rate'', [Str ''put calc here''])]
      = Inl ValueError"
  by (simp add: fill_calculated_cell_def loc0_def isnumeric_def isnumeric_char_def
      digit_string_def is_digit_def growth_rate_def to_numeric_def)

text \<open>
  Claim C10. For every record, a call of \<^verbatim>\<open>fill_calculated_cell\<close> that returns changes at
  most the Growth Rate field of the first row: the columns keep their order (a Growth Rate
  column is added last when the record had none), every other column is the same, and so
  is every later row of the Growth Rate column. This holds in the numeric and in the
  non-numeric branch.
\<close>

theorem fill_calculated_cell_frame:
  assumes "wf_frame df" and "fill_calculated_cell df = Inr df'"
  shows "(map fst df' = map fst df \<or> map fst df' = map fst df @ [''Growth Rate''])
       \<and> (\<forall>k. k \<noteq> ''Growth Rate'' \<longrightarrow> map_of df' k = map_of df k)
       \<and> (\<forall>i. 0 < i \<longrightarrow> cell_at df' i ''Growth Rate'' = cell_at df i ''Growth Rate'')"
proof -
  from assms(2) consider (same) "df' = df"
    | (set) x r where "loc0 df ''Thickness'' = Inr x" "df' = set_loc0 df ''Growth Rate'' r"
    using fill_calculated_cell_result by blast
  then show ?thesis
  proof cases
    case same
    then show ?thesis by simp
  next
    case set
    with assms(1) have n: "nrows df \<noteq> 0" by (auto dest: loc0_has_row)
    have "map fst df' = map fst df \<or> map fst df' = map fst df @ [''Growth Rate'']"
      using n set(2) set_loc0_names [of df "''Growth Rate''" r] by (simp split: if_splits)
    moreover have "\<forall>k. k \<noteq> ''Growth Rate'' \<longrightarrow> map_of df' k = map_of df k"
      using n set(2) by (simp add: set_loc0_other_column)
    moreover have "\<forall>i. 0 < i \<longrightarrow> cell_at df' i ''Growth Rate'' = cell_at df i ''Growth Rate''"
      using n set(2) assms(1) by (simp add: set_loc0_later_rows)
    ultimately show ?thesis by simp
  qed
qed

theorem fill_calculated_cell_frame_witness:
  "fill_calculated_cell
     [(''Growth Time'', [Str ''120'']), (''Thickness'', [Str ''600'']),
      (''Growth Rate'', [Str ''put calc here'']), (''Phase'', [Str ''cubic''])]
   = Inr [(''Growth Time'', [Str ''120'']), (''Thickness'', [Str ''600'']),
          (''Growth Rate'', [Float 5]), (''Phase'', [Str ''cubic''])]
   \<and> map_of [(''Growth Time'', [Str ''120'']), (''Thickness'', [Str ''600'']),
          (''Growth Rate'', [Float 5]), (''Phase'', [Str ''cubic''])] ''Phase''
     = map_of [(''Growth Time'', [Str ''120'']), (''Thickness'', [Str ''600'']),
      (''Growth Rate'', [Str ''put calc here'']), (''Phase'', [Str ''cubic''])] ''Phase''"
proof -
  let ?df = "[(''Growth Time'', [Str ''120'']), (''Thickness'', [Str ''600'']),
      (''Growth Rate'', [Str ''put calc here'']), (''Phase'', [Str ''cubic''])]"
  let ?df' = "[(''Growth Time'', [Str ''120'']), (''Thickness'', [Str ''600'']),
          (''Growth Rate'', [Float 5]), (''Phase'', [Str ''cubic''])]"
  have wf: "wf_frame ?df" by (simp add: wf_frame_def nrows_def)
  have q: "true_divide 600 120 = Float 5" by code_simp
  have run: "fill_calculated_cell ?df = Inr ?df'"
    using q
    by (simp add: fill_calculated_cell_def loc0_def isnumeric_def isnumeric_char_def
        is_digit_def growth_rate_def to_numeric_def digit_string_def nat_of_digits_def
        set_loc0_def nrows_def)
  from fill_calculated_cell_frame [OF wf run]
  have "map_of ?df' ''Phase'' = map_of ?df ''Phase''" by simp
  with run show ?thesis by simp
qed

section \<open>Properties of the scan and of the assembly\<close>

lemma fill_column_present:
  assumes "header \<in> fst ` set sheet"
  shows "\<exists>v. \<forall>summary. fill_column fstr summary sheet header = Inr (summary @ [v])"
proof -
  from assms obtain col where "map_of sheet header = Some col"
    by (metis map_of_eq_None_iff not_Some_eq)
  then show ?thesis
    by (cases col)
      (auto simp: fill_column_def getitem_def series_at0_def)
qed

lemma fill_columns_present:
  "set hs \<subseteq> fst ` set sheet \<Longrightarrow>
   \<exists>vs. length vs = length hs \<and> (\<forall>summary. fill_columns fstr summary sheet hs = Inr (summary @ vs))"
proof (induction hs)
  case Nil
  then show ?case by simp
next
  case (Cons h hs)
  then obtain v where v: "\<And>summary. fill_column fstr summary sheet h = Inr (summary @ [v])"
    using fill_column_present [of h sheet fstr] by auto
  from Cons obtain vs where vs: "length vs = length hs"
      "\<And>summary. fill_columns fstr summary sheet hs = Inr (summary @ vs)"
    by auto
  have "length (v # vs) = length (h # hs)
        \<and> (\<forall>summary. fill_columns fstr summary sheet (h # hs) = Inr (summary @ (v # vs)))"
    using v vs by simp
  then show ?case by blast
qed

lemma scan_quantities_eq:
  assumes "map_of gr h = Some col"
  shows "scan_quantities gr h qs (hs, vs) =
           Inr (hs @ replicate (length (filter (\<lambda>q. sublist q h) qs)) h,
                vs @ (case col of [] \<Rightarrow> []
                      | c # cs \<Rightarrow> replicate (length (filter (\<lambda>q. sublist q h) qs)) c))"
proof (induction qs arbitrary: hs vs)
  case Nil
  then show ?case by (simp split: list.splits)
next
  case (Cons q qs)
  show ?case
  proof (cases col)
    case Nil
    with assms Cons show ?thesis
      by (simp add: getitem_def replicate_app_Cons_same)
  next
    case (Cons c cs)
    with assms Cons.IH show ?thesis
      by (simp add: getitem_def series_at0_def replicate_app_Cons_same)
  qed
qed

lemma scan_quantities_all:
  assumes "map_of gr h = Some col"
  shows "scan_quantities gr h quantities (hs, vs) =
           Inr (hs @ replicate (match_count h) h, vs @ scan_value gr h)"
  using assms scan_quantities_eq [OF assms, of quantities hs vs]
  by (simp add: match_count_def scan_value_def split: list.splits)

lemma scan_columns_eq:
  "set names \<subseteq> fst ` set gr \<Longrightarrow>
   scan_columns gr names (hs, vs) =
     Inr (hs @ concat (map (\<lambda>h. replicate (match_count h) h) names),
          vs @ concat (map (scan_value gr) names))"
proof (induction names arbitrary: hs vs)
  case Nil
  then show ?case by simp
next
  case (Cons h names)
  then obtain col where "map_of gr h = Some col"
    by (metis list.set_intros(1) map_of_eq_None_iff not_Some_eq subsetD)
  with Cons show ?case by (simp add: scan_quantities_all)
qed

lemma scan_columns_sheet:
  "scan_columns gr (map fst gr) (hs, vs) = Inr (hs @ scan_headers gr, vs @ scan_values gr)"
  by (simp add: scan_columns_eq scan_headers_def scan_values_def)

lemma length_scan_value_le: "length (scan_value gr h) \<le> match_count h"
  by (simp add: scan_value_def split: option.splits list.splits)

lemma length_scan_values_le:
  "length (concat (map (scan_value gr) names))
     \<le> length (concat (map (\<lambda>h. replicate (match_count h) h) names))"
  by (induction names) (simp_all add: add_mono length_scan_value_le)

lemma length_scan_values_less:
  "h \<in> set names \<Longrightarrow> length (scan_value gr h) < match_count h \<Longrightarrow>
   length (concat (map (scan_value gr) names))
     < length (concat (map (\<lambda>h. replicate (match_count h) h) names))"
proof (induction names)
  case Nil
  then show ?case by simp
next
  case (Cons a names)
  show ?case
  proof (cases "a = h")
    case True
    with Cons.prems length_scan_values_le [of gr names] show ?thesis by simp
  next
    case False
    with Cons length_scan_value_le [of gr a] show ?thesis by (simp add: add_le_less_mono)
  qed
qed

lemma matches_match_count: "matches h \<longleftrightarrow> 0 < match_count h"
  by (simp add: matches_def match_count_def list_ex_iff filter_empty_conv)

lemma length_scan_values_eq:
  "matched_nonempty gr \<Longrightarrow> set names \<subseteq> fst ` set gr \<Longrightarrow>
   length (concat (map (scan_value gr) names))
     = length (concat (map (\<lambda>h. replicate (match_count h) h) names))"
proof (induction names)
  case Nil
  then show ?case by simp
next
  case (Cons h names)
  then obtain col where col: "map_of gr h = Some col"
    by (metis list.set_intros(1) map_of_eq_None_iff not_Some_eq subsetD)
  then have "(h, col) \<in> set gr" by (rule map_of_SomeD)
  with Cons.prems(1) have "matches h \<longrightarrow> col \<noteq> []"
    by (auto simp: matched_nonempty_def list_all_iff)
  then have "length (scan_value gr h) = match_count h"
    using col by (cases col) (auto simp: scan_value_def matches_match_count)
  with Cons show ?case by simp
qed

lemma scan_headers_single:
  "\<forall>h \<in> set names. match_count h \<le> 1 \<Longrightarrow>
   concat (map (\<lambda>h. replicate (match_count h) h) names) = filter matches names"
proof (induction names)
  case Nil
  then show ?case by simp
next
  case (Cons h names)
  then have "match_count h = 0 \<or> match_count h = 1" by auto
  with Cons show ?case by (auto simp: matches_match_count)
qed

lemma assemble_eq:
  assumes "required_columns ex"
  shows "\<exists>d1 t p c. length d1 = length overview_headers
           \<and> assemble fstr ex =
               Inr (overview_headers @ [''Thickness'', ''Growth Rate'']
                      @ scan_headers (growth_run ex) @ [''Phase'', ''Collaborator'', ''Notes''],
                    d1 @ [t, Str ''put calc here''] @ scan_values (growth_run ex)
                      @ [p, c, Str ''put notes here''])"
proof -
  from assms obtain d1 where d1: "length d1 = length overview_headers"
      "fill_columns fstr [] (overview ex) overview_headers = Inr d1"
    using fill_columns_present [of overview_headers "overview ex" fstr]
    by (auto simp: required_columns_def)
  from assms obtain t
    where t: "\<And>s. fill_column fstr s (afm_reflectance_sem ex) ''Thickness'' = Inr (s @ [t])"
    using fill_column_present [of "''Thickness''" "afm_reflectance_sem ex" fstr]
    by (auto simp: required_columns_def)
  from assms obtain p
    where p: "\<And>s. fill_column fstr s (hrxrd ex) ''Phase'' = Inr (s @ [p])"
    using fill_column_present [of "''Phase''" "hrxrd ex" fstr]
    by (auto simp: required_columns_def)
  from assms obtain c
    where c: "\<And>s. fill_column fstr s (sample_cut ex) ''Collaborator'' = Inr (s @ [c])"
    using fill_column_present [of "''Collaborator''" "sample_cut ex" fstr]
    by (auto simp: required_columns_def)
  have "assemble fstr ex =
          Inr (overview_headers @ [''Thickness'', ''Growth Rate'']
                 @ scan_headers (growth_run ex) @ [''Phase'', ''Collaborator'', ''Notes''],
               d1 @ [t, Str ''put calc here''] @ scan_values (growth_run ex)
                 @ [p, c, Str ''put notes here''])"
    by (simp add: assemble_def d1(2) t p c scan_columns_sheet)
  with d1(1) show ?thesis by blast
qed

section \<open>Claims about the assembly\<close>

text \<open>
  Claim C6, as amended. For every workbook whose sheets have the columns the script
  reads and in which every matching GrowthRun column has a row, the assembly returns a
  header list and a value list of equal length, and the headers are, in this order: the
  seven Overview fields, Thickness and Growth Rate, the headers of the scan, then Phase,
  Collaborator, Notes. Where no GrowthRun column name contains two of the substrings, the
  headers of the scan are the matching GrowthRun columns in sheet order, each once. (The
  scan lists a name once for every substring the name contains.)
\<close>

theorem assemble_headers_values:
  assumes "required_columns ex" and "matched_nonempty (growth_run ex)"
  shows "(\<exists>vs. assemble fstr ex =
                 Inr (overview_headers @ [''Thickness'', ''Growth Rate'']
                        @ scan_headers (growth_run ex) @ [''Phase'', ''Collaborator'', ''Notes''],
                      vs)
               \<and> length vs = length (overview_headers @ [''Thickness'', ''Growth Rate'']
                        @ scan_headers (growth_run ex) @ [''Phase'', ''Collaborator'', ''Notes'']))
       \<and> ((\<forall>h \<in> set (map fst (growth_run ex)). match_count h \<le> 1) \<longrightarrow>
            scan_headers (growth_run ex) = matched_columns (growth_run ex))"
proof
  from assemble_eq [OF assms(1), of fstr] obtain d1 t p c
    where d1: "length d1 = length overview_headers"
      and a: "assemble fstr ex =
               Inr (overview_headers @ [''Thickness'', ''Growth Rate'']
                      @ scan_headers (growth_run ex) @ [''Phase'', ''Collaborator'', ''Notes''],
                    d1 @ [t, Str ''put calc here''] @ scan_values (growth_run ex)
                      @ [p, c, Str ''put notes here''])"
    by blast
  have "length (scan_values (growth_run ex)) = length (scan_headers (growth_run ex))"
    using assms(2) length_scan_values_eq [of "growth_run ex" "map fst (growth_run ex)"]
    by (simp add: scan_values_def scan_headers_def)
  with d1 a
  show "\<exists>vs. assemble fstr ex =
                 Inr (overview_headers @ [''Thickness'', ''Growth Rate'']
                        @ scan_headers (growth_run ex) @ [''Phase'', ''Collaborator'', ''Notes''],
                      vs)
               \<and> length vs = length (overview_headers @ [''Thickness'', ''Growth Rate'']
                        @ scan_headers (growth_run ex) @ [''Phase'', ''Collaborator'', ''Notes''])"
    by simp
next
  show "(\<forall>h \<in> set (map fst (growth_run ex)). match_count h \<le> 1) \<longrightarrow>
            scan_headers (growth_run ex) = matched_columns (growth_run ex)"
    using scan_headers_single [of "map fst (growth_run ex)"]
    by (simp add: scan_headers_def matched_columns_def)
qed

theorem assemble_headers_values_witness:
  "assemble (\<lambda>r. [])
     \<lparr>overview = [(''Sample'', [Str ''A1'']), (''Date'', [Str ''2024-01-01'']),
                  (''Film'', [Str ''GaN'']), (''Substrate'', [Str ''Si'']),
                  (''Substrate T'', [Intg 650]), (''Carrier Gas'', [Null]),
                  (''Growth Time'', [Intg 120])],
      growth_run = [(''Step'', [Intg 1]), (''Partial Pressure TMGa'', [Str ''low''])],
      afm_reflectance_sem = [(''Thickness'', [Intg 600])],
      hrxrd = [(''Phase'', [Str ''cubic''])],
      sample_cut = [(''Collaborator'', [Str ''X''])]\<rparr>
   = Inr ([''Sample'', ''Date'', ''Film'', ''Substrate'', ''Substrate T'', ''Carrier Gas'',
           ''Growth Time'', ''Thickness'', ''Growth Rate'', ''Partial Pressure TMGa'',
           ''Phase'', ''Collaborator'', ''Notes''],
          [Str ''A1'', Str ''2024-01-01'', Str ''GaN'', Str ''Si'', Str ''650'', Str ''empty'',
           Str ''120'', Str ''600'', Str ''put calc here'', Str ''low'',
           Str ''cubic'', Str ''X'', Str ''put notes here''])"
proof -
  let ?ex = "\<lparr>overview = [(''Sample'', [Str ''A1'']), (''Date'', [Str ''2024-01-01'']),
                  (''Film'', [Str ''GaN'']), (''Substrate'', [Str ''Si'']),
                  (''Substrate T'', [Intg 650]), (''Carrier Gas'', [Null]),
                  (''Growth Time'', [Intg 120])],
      growth_run = [(''Step'', [Intg 1]), (''Partial Pressure TMGa'', [Str ''low''])],
      afm_reflectance_sem = [(''Thickness'', [Intg 600])],
      hrxrd = [(''Phase'', [Str ''cubic''])],
      sample_cut = [(''Collaborator'', [Str ''X''])]\<rparr>"
  have r: "required_columns ?ex" by (simp add: required_columns_def overview_headers_def)
  have m: "matched_nonempty (growth_run ?ex)" by (simp add: matched_nonempty_def)
  have h: "scan_headers (growth_run ?ex) = [''Partial Pressure TMGa'']" by code_simp
  have v: "assemble (\<lambda>r. []) ?ex
             = Inr ([''Sample'', ''Date'', ''Film'', ''Substrate'', ''Substrate T'', ''Carrier Gas'',
           ''Growth Time'', ''Thickness'', ''Growth Rate'', ''Partial Pressure TMGa'',
           ''Phase'', ''Collaborator'', ''Notes''],
          [Str ''A1'', Str ''2024-01-01'', Str ''GaN'', Str ''Si'', Str ''650'', Str ''empty'',
           Str ''120'', Str ''600'', Str ''put calc here'', Str ''low'',
           Str ''cubic'', Str ''X'', Str ''put notes here''])"
    by code_simp
  from assemble_headers_values [OF r m, of "\<lambda>r. []"] h v show ?thesis by simp
qed

text \<open>
  The claim as stated fails on a GrowthRun column whose name contains two of the
  substrings: the inner loop appends the name, and the value, once for each, so the headers
  hold the name twice where the matching columns hold it once.
\<close>

theorem assemble_double_match_counterexample:
  "matched_columns [(''Bubbler Material Partial Pressure'', [Str ''low''])]
     = [''Bubbler Material Partial Pressure'']
   \<and> assemble (\<lambda>r. [])
     \<lparr>overview = [(''Sample'', [Str ''A1'']), (''Date'', [Str ''2024-01-01'']),
                  (''Film'', [Str ''GaN'']), (''Substrate'', [Str ''Si'']),
                  (''Substrate T'', [Intg 650]), (''Carrier Gas'', [Null]),
                  (''Growth Time'', [Intg 120])],
      growth_run = [(''Bubbler Material Partial Pressure'', [Str ''low''])],
      afm_reflectance_sem = [(''Thickness'', [Intg 600])],
      hrxrd = [(''Phase'', [Str ''cubic''])],
      sample_cut = [(''Collaborator'', [Str ''X''])]\<rparr>
   = Inr ([''Sample'', ''Date'', ''Film'', ''Substrate'', ''Substrate T'', ''Carrier Gas'',
           ''Growth Time'', ''Thickness'', ''Growth Rate'',
           ''Bubbler Material Partial Pressure'', ''Bubbler Material Partial Pressure'',
           ''Phase'', ''Collaborator'', ''Notes''],
          [Str ''A1'', Str ''2024-01-01'', Str ''GaN'', Str ''Si'', Str ''650'', Str ''empty'',
           Str ''120'', Str ''600'', Str ''put calc here'', Str ''low'', Str ''low'',
           Str ''cubic'', Str ''X'', Str ''put notes here''])"
  by code_simp

text \<open>
  Claim C7. Whenever a GrowthRun column whose name contains one of the three substrings
  has no row, the scan, started on a header list and a value list of equal length,
  returns with that name among the headers and with more headers than values: the name is
  appended and no value is. The witness below is such an input.
\<close>

theorem scan_desynchronizes:
  assumes "map_of gr h = Some []" and "matches h" and "length hs = length vs"
  shows "\<exists>hs' vs'. scan_columns gr (map fst gr) (hs, vs) = Inr (hs', vs')
           \<and> h \<in> set hs' \<and> length vs' < length hs'"
proof -
  have in_names: "h \<in> set (map fst gr)"
    using assms(1) by (metis map_of_eq_None_iff option.distinct(1) set_map)
  have pos: "0 < match_count h" using assms(2) by (simp add: matches_match_count)
  have "length (scan_value gr h) < match_count h"
    using assms(1) pos by (simp add: scan_value_def)
  with in_names have "length (scan_values gr) < length (scan_headers gr)"
    unfolding scan_values_def scan_headers_def by (rule length_scan_values_less)
  moreover have "h \<in> set (scan_headers gr)"
    using in_names pos by (auto simp: scan_headers_def)
  ultimately show ?thesis using assms(3) by (simp add: scan_columns_sheet)
qed

theorem scan_desynchronizes_witness:
  "scan_columns [(''Step'', []), (''Partial Pressure TMGa'', [])]
     (map fst [(''Step'', []), (''Partial Pressure TMGa'', [])])
     ([''Thickness'', ''Growth Rate''], [Str ''600'', Str ''put calc here''])
   = Inr ([''Thickness'', ''Growth Rate'', ''Partial Pressure TMGa''],
          [Str ''600'', Str ''put calc here''])"
proof -
  let ?gr = "[(''Step'', []), (''Partial Pressure TMGa'', [])] :: dataframe"
  have e: "map_of ?gr ''Partial Pressure TMGa'' = Some []" by simp
  have m: "matches ''Partial Pressure TMGa''" by code_simp
  have v: "scan_columns ?gr (map fst ?gr)
             ([''Thickness'', ''Growth Rate''], [Str ''600'', Str ''put calc here''])
           = Inr ([''Thickness'', ''Growth Rate'', ''Partial Pressure TMGa''],
                  [Str ''600'', Str ''put calc here''])"
    by code_simp
  from scan_desynchronizes [OF e m, of "[''Thickness'', ''Growth Rate'']"
      "[Str ''600'', Str ''put calc here'']"] v
  show ?thesis by simp
qed

section \<open>Properties of the record\<close>

lemma update_fresh: "k \<notin> fst ` set d \<Longrightarrow> AList.update k v d = d @ [(k, v)]"
  by (induction d) auto

lemma foldl_update_keys:
  "fst ` set (foldl (\<lambda>d (k, v). AList.update k v d) d ps) = fst ` set d \<union> fst ` set ps"
proof (induction ps arbitrary: d)
  case Nil
  then show ?case by simp
next
  case (Cons p ps)
  obtain k v where p: "p = (k, v)" by (cases p)
  show ?case using Cons [of "AList.update k v d"] by (auto simp: p dom_update)
qed

lemma foldl_update_distinct:
  "distinct (map fst d) \<Longrightarrow>
   distinct (map fst (foldl (\<lambda>d (k, v). AList.update k v d) d ps))"
proof (induction ps arbitrary: d)
  case Nil
  then show ?case by simp
next
  case (Cons p ps)
  obtain k v where p: "p = (k, v)" by (cases p)
  show ?case using Cons by (simp add: p distinct_update)
qed

lemma foldl_update_fresh:
  "distinct (map fst ps) \<Longrightarrow> fst ` set d \<inter> fst ` set ps = {} \<Longrightarrow>
   foldl (\<lambda>d (k, v). AList.update k v d) d ps = d @ ps"
proof (induction ps arbitrary: d)
  case Nil
  then show ?case by simp
next
  case (Cons p ps)
  obtain k v where p: "p = (k, v)" by (cases p)
  from Cons.prems have k: "k \<notin> fst ` set d" by (auto simp: p)
  then have u: "AList.update k v d = d @ [(k, v)]" by (rule update_fresh)
  have "fst ` set (d @ [(k, v)]) \<inter> fst ` set ps = {}"
    using Cons.prems by (auto simp: p)
  moreover have "distinct (map fst ps)" using Cons.prems by simp
  ultimately have "foldl (\<lambda>d (k, v). AList.update k v d) (d @ [(k, v)]) ps = (d @ [(k, v)]) @ ps"
    by (rule Cons.IH [rotated])
  then show ?case by (simp add: p u)
qed

lemma take_min_length: "take (min (length hs) n) hs = take n hs"
  by (simp add: min_def)

lemma summary_dict_keys: "fst ` set (summary_dict hs vs) = set (take (length vs) hs)"
proof -
  have "fst ` set (zip hs vs) = set (map fst (zip hs vs))" by simp
  also have "\<dots> = set (take (length vs) hs)"
    by (simp only: map_fst_zip_take take_min_length)
  finally show ?thesis by (simp add: summary_dict_def foldl_update_keys)
qed

lemma summary_dict_distinct: "distinct (map fst (summary_dict hs vs))"
  by (simp add: summary_dict_def foldl_update_distinct)

lemma summary_dict_positional:
  "distinct (take (length vs) hs) \<Longrightarrow> summary_dict hs vs = zip hs vs"
proof -
  assume "distinct (take (length vs) hs)"
  then have "distinct (map fst (zip hs vs))" by (simp add: map_fst_zip_take take_min_length)
  then show ?thesis
    using foldl_update_fresh [of "zip hs vs" "[]"] by (simp add: summary_dict_def)
qed

lemma one_row_frame_keys: "map fst (one_row_frame d) = map fst d"
  by (induction d) (auto simp: one_row_frame_def)

lemma one_row_frame_map_of:
  "map_of (one_row_frame d) k = map_option (\<lambda>v. [v]) (map_of d k)"
  by (induction d) (auto simp: one_row_frame_def)

lemma one_row_frame_wf: "distinct (map fst d) \<Longrightarrow> wf_frame (one_row_frame d)"
  by (cases d) (auto simp: wf_frame_def one_row_frame_def nrows_def list_all_iff comp_def
      case_prod_unfold)

lemma loc0_one_row_zip:
  "distinct (take (length vs) hs) \<Longrightarrow> i < length vs \<Longrightarrow> i < length hs \<Longrightarrow>
   loc0 (one_row_frame (zip hs vs)) (hs ! i) = Inr (vs ! i)"
proof -
  assume d: "distinct (take (length vs) hs)" and i: "i < length vs" "i < length hs"
  have "distinct (map fst (zip hs vs))" using d by (simp add: map_fst_zip_take take_min_length)
  moreover have "(hs ! i, vs ! i) \<in> set (zip hs vs)"
    using i by (auto simp: set_zip)
  ultimately have "map_of (zip hs vs) (hs ! i) = Some (vs ! i)" by simp
  then show ?thesis by (simp add: loc0_def one_row_frame_map_of)
qed

section \<open>Claim about the record of a desynchronized assembly\<close>

text \<open>
  Claim C9. When the header list is longer than the value list, the record is built
  without any error and is a well-formed frame; its columns are exactly the headers at the
  positions that have a value, so a header met only beyond the last value is not a column
  of the record; and, the headers that have a value being pairwise different, the record
  pairs the header and the value of each position in order, so each value stands under the
  header of its own position, whatever header it was extracted for.
\<close>

theorem make_record_truncates:
  assumes "length vs < length hs"
  shows "wf_frame (make_record hs vs)
       \<and> set (map fst (make_record hs vs)) = set (take (length vs) hs)
       \<and> (\<forall>j. length vs \<le> j \<and> j < length hs \<and> hs ! j \<notin> set (take (length vs) hs) \<longrightarrow>
              getitem (make_record hs vs) (hs ! j) = Inl KeyError)
       \<and> (distinct (take (length vs) hs) \<longrightarrow>
              make_record hs vs = map (\<lambda>(h, v). (h, [v])) (zip hs vs)
              \<and> (\<forall>i < length vs. loc0 (make_record hs vs) (hs ! i) = Inr (vs ! i)))"
proof -
  have keys: "set (map fst (make_record hs vs)) = set (take (length vs) hs)"
    by (simp only: make_record_def one_row_frame_keys set_map summary_dict_keys)
  have wf: "wf_frame (make_record hs vs)"
    by (simp add: make_record_def one_row_frame_wf summary_dict_distinct)
  have dropped: "\<forall>j. length vs \<le> j \<and> j < length hs \<and> hs ! j \<notin> set (take (length vs) hs) \<longrightarrow>
              getitem (make_record hs vs) (hs ! j) = Inl KeyError"
  proof (intro allI impI)
    fix j
    assume "length vs \<le> j \<and> j < length hs \<and> hs ! j \<notin> set (take (length vs) hs)"
    then have "hs ! j \<notin> fst ` set (make_record hs vs)" using keys by simp
    then have "map_of (make_record hs vs) (hs ! j) = None" by (simp add: map_of_eq_None_iff)
    then show "getitem (make_record hs vs) (hs ! j) = Inl KeyError" by (simp add: getitem_def)
  qed
  have positional: "distinct (take (length vs) hs) \<longrightarrow>
              make_record hs vs = map (\<lambda>(h, v). (h, [v])) (zip hs vs)
              \<and> (\<forall>i < length vs. loc0 (make_record hs vs) (hs ! i) = Inr (vs ! i))"
  proof
    assume d: "distinct (take (length vs) hs)"
    then have eq: "make_record hs vs = one_row_frame (zip hs vs)"
      by (simp add: make_record_def summary_dict_positional)
    moreover have "\<forall>i < length vs. loc0 (one_row_frame (zip hs vs)) (hs ! i) = Inr (vs ! i)"
      using d assms by (simp add: loc0_one_row_zip)
    ultimately show "make_record hs vs = map (\<lambda>(h, v). (h, [v])) (zip hs vs)
              \<and> (\<forall>i < length vs. loc0 (make_record hs vs) (hs ! i) = Inr (vs ! i))"
      by (simp add: one_row_frame_def)
  qed
  from wf keys dropped positional show ?thesis by blast
qed

theorem make_record_truncates_witness:
  "make_record [''Thickness'', ''Growth Rate'', ''Partial Pressure'', ''Phase'', ''Collaborator'',
                ''Notes'']
               [Str ''600'', Str ''put calc here'', Str ''cubic'', Str ''X'', Str ''put notes here'']
   = [(''Thickness'', [Str ''600'']), (''Growth Rate'', [Str ''put calc here'']),
      (''Partial Pressure'', [Str ''cubic'']), (''Phase'', [Str ''X'']),
      (''Collaborator'', [Str ''put notes here''])]
   \<and> getitem (make_record [''Thickness'', ''Growth Rate'', ''Partial Pressure'', ''Phase'',
                           ''Collaborator'', ''Notes'']
               [Str ''600'', Str ''put calc here'', Str ''cubic'', Str ''X'', Str ''put notes here''])
        ''Notes'' = Inl KeyError"
proof -
  let ?hs = "[''Thickness'', ''Growth Rate'', ''Partial Pressure'', ''Phase'', ''Collaborator'',
              ''Notes'']"
  let ?vs = "[Str ''600'', Str ''put calc here'', Str ''cubic'', Str ''X'', Str ''put notes here'']"
  have l: "length ?vs < length ?hs" by simp
  have d: "distinct (take (length ?vs) ?hs)" by simp
  have n: "?hs ! 5 \<notin> set (take (length ?vs) ?hs)" by simp
  note t = make_record_truncates [OF l]
  have "make_record ?hs ?vs = map (\<lambda>(h, v). (h, [v])) (zip ?hs ?vs)"
    using t [THEN conjunct2, THEN conjunct2, THEN conjunct2] d by simp
  moreover have "getitem (make_record ?hs ?vs) (?hs ! 5) = Inl KeyError"
    using t [THEN conjunct2, THEN conjunct2, THEN conjunct1, rule_format, of 5] n by simp
  ultimately show ?thesis by simp
qed

section \<open>Properties of the merge\<close>







section \<open>Claim about the merge\<close>



section \<open>The end-to-end scenario\<close>

lemma no_match_scan_headers:
  "matched_columns gr = [] \<Longrightarrow> scan_headers gr = []"
proof -
  assume "matched_columns gr = []"
  then have "\<forall>h \<in> set (map fst gr). match_count h = 0"
    by (auto simp: matched_columns_def filter_empty_conv matches_match_count)
  then show ?thesis by (simp add: scan_headers_def)
qed

lemma no_match_scan_values:
  "matched_columns gr = [] \<Longrightarrow> scan_values gr = []"
proof -
  assume "matched_columns gr = []"
  then have "\<forall>h \<in> set (map fst gr). match_count h = 0"
    by (auto simp: matched_columns_def filter_empty_conv matches_match_count)
  then have "\<forall>h \<in> set (map fst gr). scan_value gr h = []"
    by (auto simp: scan_value_def split: option.splits list.splits)
  then show ?thesis by (simp add: scan_values_def)
qed

lemma fill_column_single_str:
  "map_of sheet header = Some [Str s] \<Longrightarrow>
   fill_column fstr summary sheet header = Inr (summary @ [Str s])"
  using fill_column_no_null [of sheet header "Str s" "[]" fstr summary] by simp

lemma growth_rate_600_120: "growth_rate ''600'' ''120'' = Inr (Float 5)"
proof -
  have "to_numeric ''600'' = Inr 600"
    by (simp add: to_numeric_def digit_string_def is_digit_def nat_of_digits_def)
  moreover have "to_numeric ''120'' = Inr 120"
    by (simp add: to_numeric_def digit_string_def is_digit_def nat_of_digits_def)
  moreover have "true_divide 600 120 = Float 5" by code_simp
  ultimately show ?thesis by (simp add: growth_rate_def)
qed

lemma isnumeric_600: "isnumeric ''600''"
  by (simp add: isnumeric_def isnumeric_char_def is_digit_def)

lemma isnumeric_120: "isnumeric ''120''"
  by (simp add: isnumeric_def isnumeric_char_def is_digit_def)

lemma summary_filename_12: "summary_filename 12 = ''summary_12cols.xlsx''"
  by (simp add: summary_filename_def str_of_nat.simps)

lemma scenario_record:
  "fill_calculated_cell
     (make_record
        (overview_headers @ [''Thickness'', ''Growth Rate''] @ [] @ [''Phase'', ''Collaborator'', ''Notes''])
        [Str ''A1'', Str ''2024-01-01'', film, substrate, substrate_t, carrier_gas, Str ''120'',
         Str ''600'', Str ''put calc here'', Str ''cubic'', Str ''X'', Str ''put notes here''])
   = Inr [(''Sample'', [Str ''A1'']), (''Date'', [Str ''2024-01-01'']), (''Film'', [film]),
          (''Substrate'', [substrate]), (''Substrate T'', [substrate_t]),
          (''Carrier Gas'', [carrier_gas]), (''Growth Time'', [Str ''120'']),
          (''Thickness'', [Str ''600'']), (''Growth Rate'', [Float 5]),
          (''Phase'', [Str ''cubic'']), (''Collaborator'', [Str ''X'']),
          (''Notes'', [Str ''put notes here''])]"
proof -
  let ?hs = "overview_headers @ [''Thickness'', ''Growth Rate''] @ []
               @ [''Phase'', ''Collaborator'', ''Notes'']"
  let ?vs = "[Str ''A1'', Str ''2024-01-01'', film, substrate, substrate_t, carrier_gas,
              Str ''120'', Str ''600'', Str ''put calc here'', Str ''cubic'', Str ''X'',
              Str ''put notes here'']"
  let ?rec = "[(''Sample'', [Str ''A1'']), (''Date'', [Str ''2024-01-01'']), (''Film'', [film]),
          (''Substrate'', [substrate]), (''Substrate T'', [substrate_t]),
          (''Carrier Gas'', [carrier_gas]), (''Growth Time'', [Str ''120'']),
          (''Thickness'', [Str ''600'']), (''Growth Rate'', [Str ''put calc here'']),
          (''Phase'', [Str ''cubic'']), (''Collaborator'', [Str ''X'']),
          (''Notes'', [Str ''put notes here''])]"
  have "distinct (take (length ?vs) ?hs)" by (simp add: overview_headers_def)
  then have "summary_dict ?hs ?vs = zip ?hs ?vs" by (rule summary_dict_positional)
  then have r: "make_record ?hs ?vs = ?rec"
    by (simp add: make_record_def one_row_frame_def overview_headers_def)
  have t: "loc0 ?rec ''Thickness'' = Inr (Str ''600'')" by (simp add: loc0_def)
  have g: "loc0 ?rec ''Growth Time'' = Inr (Str ''120'')" by (simp add: loc0_def)
  have "fill_calculated_cell ?rec = Inr (set_loc0 ?rec ''Growth Rate'' (Float 5))"
    using t g isnumeric_600 isnumeric_120 growth_rate_600_120
    by (rule fill_calculated_cell_compute)
  moreover have "set_loc0 ?rec ''Growth Rate'' (Float 5) =
      [(''Sample'', [Str ''A1'']), (''Date'', [Str ''2024-01-01'']), (''Film'', [film]),
          (''Substrate'', [substrate]), (''Substrate T'', [substrate_t]),
          (''Carrier Gas'', [carrier_gas]), (''Growth Time'', [Str ''120'']),
          (''Thickness'', [Str ''600'']), (''Growth Rate'', [Float 5]),
          (''Phase'', [Str ''cubic'']), (''Collaborator'', [Str ''X'']),
          (''Notes'', [Str ''put notes here''])]"
    by (simp add: set_loc0_def nrows_def)
  ultimately show ?thesis using r by simp
qed

text \<open>
  Claim C8. For a workbook whose Overview has Sample \<^verbatim>\<open>A1\<close>, Date \<^verbatim>\<open>2024-01-01\<close> and
  Growth Time \<^verbatim>\<open>120\<close> (and the columns Film, Substrate, Substrate T and Carrier Gas, with any
  content), whose AFMReflectanceSEM has Thickness \<^verbatim>\<open>600\<close>, whose GrowthRun has no matching
  column, whose HRXRD has Phase \<^verbatim>\<open>cubic\<close> and whose SampleCut has Collaborator \<^verbatim>\<open>X\<close>, the
  record has twelve headers and one row with Sample \<^verbatim>\<open>A1\<close>, Date \<^verbatim>\<open>2024-01-01\<close>,
  Growth Time \<^verbatim>\<open>120\<close>, Thickness \<^verbatim>\<open>600\<close>, Growth Rate \<^verbatim>\<open>5.0\<close>, Phase \<^verbatim>\<open>cubic\<close>,
  Collaborator \<^verbatim>\<open>X\<close> and Notes \<^verbatim>\<open>put notes here\<close>, and \<^verbatim>\<open>generate_overview\<close> merges that record
  into the file \<^verbatim>\<open>summary_12cols.xlsx\<close>.
\<close>

theorem end_to_end_scenario:
  assumes "map_of (overview wb) ''Sample'' = Some [Str ''A1'']"
    and "map_of (overview wb) ''Date'' = Some [Str ''2024-01-01'']"
    and "map_of (overview wb) ''Growth Time'' = Some [Str ''120'']"
    and "{''Film'', ''Substrate'', ''Substrate T'', ''Carrier Gas''} \<subseteq> fst ` set (overview wb)"
    and "map_of (afm_reflectance_sem wb) ''Thickness'' = Some [Str ''600'']"
    and "matched_columns (growth_run wb) = []"
    and "map_of (hrxrd wb) ''Phase'' = Some [Str ''cubic'']"
    and "map_of (sample_cut wb) ''Collaborator'' = Some [Str ''X'']"
  shows "\<exists>film substrate substrate_t carrier_gas.
           new_record fstr wb =
             Inr (12, [(''Sample'', [Str ''A1'']), (''Date'', [Str ''2024-01-01'']),
                       (''Film'', [film]), (''Substrate'', [substrate]),
                       (''Substrate T'', [substrate_t]), (''Carrier Gas'', [carrier_gas]),
                       (''Growth Time'', [Str ''120'']), (''Thickness'', [Str ''600'']),
                       (''Growth Rate'', [Float 5]), (''Phase'', [Str ''cubic'']),
                       (''Collaborator'', [Str ''X'']), (''Notes'', [Str ''put notes here''])])
         \<and> generate_overview fstr wb dir =
             Inr (dir(''summary_12cols.xlsx'' \<mapsto>
                    merge_summary 12
                      [(''Sample'', [Str ''A1'']), (''Date'', [Str ''2024-01-01'']),
                       (''Film'', [film]), (''Substrate'', [substrate]),
                       (''Substrate T'', [substrate_t]), (''Carrier Gas'', [carrier_gas]),
                       (''Growth Time'', [Str ''120'']), (''Thickness'', [Str ''600'']),
                       (''Growth Rate'', [Float 5]), (''Phase'', [Str ''cubic'']),
                       (''Collaborator'', [Str ''X'']), (''Notes'', [Str ''put notes here''])]
                      (dir ''summary_12cols.xlsx'')))"
proof -
  from assms(4) obtain film
    where film: "\<And>s. fill_column fstr s (overview wb) ''Film'' = Inr (s @ [film])"
    using fill_column_present [of "''Film''" "overview wb" fstr] by auto
  from assms(4) obtain substrate
    where substrate: "\<And>s. fill_column fstr s (overview wb) ''Substrate'' = Inr (s @ [substrate])"
    using fill_column_present [of "''Substrate''" "overview wb" fstr] by auto
  from assms(4) obtain substrate_t
    where substrate_t:
      "\<And>s. fill_column fstr s (overview wb) ''Substrate T'' = Inr (s @ [substrate_t])"
    using fill_column_present [of "''Substrate T''" "overview wb" fstr] by auto
  from assms(4) obtain carrier_gas
    where carrier_gas:
      "\<And>s. fill_column fstr s (overview wb) ''Carrier Gas'' = Inr (s @ [carrier_gas])"
    using fill_column_present [of "''Carrier Gas''" "overview wb" fstr] by auto
  let ?rec = "[(''Sample'', [Str ''A1'']), (''Date'', [Str ''2024-01-01'']),
                       (''Film'', [film]), (''Substrate'', [substrate]),
                       (''Substrate T'', [substrate_t]), (''Carrier Gas'', [carrier_gas]),
                       (''Growth Time'', [Str ''120'']), (''Thickness'', [Str ''600'']),
                       (''Growth Rate'', [Float 5]), (''Phase'', [Str ''cubic'']),
                       (''Collaborator'', [Str ''X'']), (''Notes'', [Str ''put notes here''])]"
  have ov: "fill_columns fstr [] (overview wb) overview_headers =
              Inr [Str ''A1'', Str ''2024-01-01'', film, substrate, substrate_t, carrier_gas,
                   Str ''120'']"
    using assms(1,2,3)
    by (simp add: overview_headers_def fill_column_single_str film substrate substrate_t
        carrier_gas)
  have a: "assemble fstr wb =
             Inr (overview_headers @ [''Thickness'', ''Growth Rate''] @ []
                    @ [''Phase'', ''Collaborator'', ''Notes''],
                  [Str ''A1'', Str ''2024-01-01'', film, substrate, substrate_t, carrier_gas,
                   Str ''120'', Str ''600'', Str ''put calc here'', Str ''cubic'', Str ''X'',
                   Str ''put notes here''])"
    using assms(5,6,7,8)
    by (simp add: assemble_def ov fill_column_single_str scan_columns_sheet
        no_match_scan_headers no_match_scan_values)
  have n: "new_record fstr wb = Inr (12, ?rec)"
    using scenario_record [of film substrate substrate_t carrier_gas]
    by (simp add: new_record_def a overview_headers_def)
  then have "generate_overview fstr wb dir =
               Inr (dir(''summary_12cols.xlsx'' \<mapsto>
                      merge_summary 12 ?rec (dir ''summary_12cols.xlsx'')))"
    by (simp add: generate_overview_def summary_filename_12)
  with n show ?thesis by blast
qed

theorem end_to_end_scenario_witness:
  "generate_overview (\<lambda>r. [])
     \<lparr>overview = [(''Sample'', [Str ''A1'']), (''Date'', [Str ''2024-01-01'']),
                  (''Film'', [Str ''GaN'']), (''Substrate'', [Str ''Si'']),
                  (''Substrate T'', [Intg 650]), (''Carrier Gas'', [Null]),
                  (''Growth Time'', [Str ''120''])],
      growth_run = [(''Step'', [Intg 1])],
      afm_reflectance_sem = [(''Thickness'', [Str ''600''])],
      hrxrd = [(''Phase'', [Str ''cubic''])],
      sample_cut = [(''Collaborator'', [Str ''X''])]\<rparr>
     Map.empty
   = Inr [''summary_12cols.xlsx'' \<mapsto>
           [(''Sample'', [Str ''A1'']), (''Date'', [Str ''2024-01-01'']),
            (''Film'', [Str ''GaN'']), (''Substrate'', [Str ''Si'']),
            (''Substrate T'', [Str ''650'']), (''Carrier Gas'', [Str ''empty'']),
            (''Growth Time'', [Str ''120'']), (''Thickness'', [Str ''600'']),
            (''Growth Rate'', [Float 5]), (''Phase'', [Str ''cubic'']),
            (''Collaborator'', [Str ''X'']), (''Notes'', [Str ''put notes here''])]]"
proof -
  let ?wb = "\<lparr>overview = [(''Sample'', [Str ''A1'']), (''Date'', [Str ''2024-01-01'']),
                  (''Film'', [Str ''GaN'']), (''Substrate'', [Str ''Si'']),
                  (''Substrate T'', [Intg 650]), (''Carrier Gas'', [Null]),
                  (''Growth Time'', [Str ''120''])],
      growth_run = [(''Step'', [Intg 1])],
      afm_reflectance_sem = [(''Thickness'', [Str ''600''])],
      hrxrd = [(''Phase'', [Str ''cubic''])],
      sample_cut = [(''Collaborator'', [Str ''X''])]\<rparr>"
  have m: "matched_columns (growth_run ?wb) = []" by code_simp
  have a: "assemble (\<lambda>r. []) ?wb =
             Inr (overview_headers @ [''Thickness'', ''Growth Rate''] @ []
                    @ [''Phase'', ''Collaborator'', ''Notes''],
                  [Str ''A1'', Str ''2024-01-01'', Str ''GaN'', Str ''Si'', Str ''650'',
                   Str ''empty'', Str ''120'', Str ''600'', Str ''put calc here'', Str ''cubic'',
                   Str ''X'', Str ''put notes here''])"
    by code_simp
  have n: "new_record (\<lambda>r. []) ?wb =
             Inr (12, [(''Sample'', [Str ''A1'']), (''Date'', [Str ''2024-01-01'']),
            (''Film'', [Str ''GaN'']), (''Substrate'', [Str ''Si'']),
            (''Substrate T'', [Str ''650'']), (''Carrier Gas'', [Str ''empty'']),
            (''Growth Time'', [Str ''120'']), (''Thickness'', [Str ''600'']),
            (''Growth Rate'', [Float 5]), (''Phase'', [Str ''cubic'']),
            (''Collaborator'', [Str ''X'']), (''Notes'', [Str ''put notes here''])])"
    using scenario_record [of "Str ''GaN''" "Str ''Si''" "Str ''650''" "Str ''empty''"]
    by (simp add: new_record_def a overview_headers_def)
  from end_to_end_scenario [of ?wb "\<lambda>r. []" Map.empty] m
  obtain film substrate substrate_t carrier_gas
    where e: "new_record (\<lambda>r. []) ?wb =
             Inr (12, [(''Sample'', [Str ''A1'']), (''Date'', [Str ''2024-01-01'']),
                       (''Film'', [film]), (''Substrate'', [substrate]),
                       (''Substrate T'', [substrate_t]), (''Carrier Gas'', [carrier_gas]),
                       (''Growth Time'', [Str ''120'']), (''Thickness'', [Str ''600'']),
                       (''Growth Rate'', [Float 5]), (''Phase'', [Str ''cubic'']),
                       (''Collaborator'', [Str ''X'']), (''Notes'', [Str ''put notes here''])])"
      and g: "generate_overview (\<lambda>r. []) ?wb Map.empty =
             Inr (Map.empty(''summary_12cols.xlsx'' \<mapsto>
                    merge_summary 12
                      [(''Sample'', [Str ''A1'']), (''Date'', [Str ''2024-01-01'']),
                       (''Film'', [film]), (''Substrate'', [substrate]),
                       (''Substrate T'', [substrate_t]), (''Carrier Gas'', [carrier_gas]),
                       (''Growth Time'', [Str ''120'']), (''Thickness'', [Str ''600'']),
                       (''Growth Rate'', [Float 5]), (''Phase'', [Str ''cubic'']),
                       (''Collaborator'', [Str ''X'']), (''Notes'', [Str ''put notes here''])]
                      (Map.empty ''summary_12cols.xlsx'')))"
    by auto
  from e n have "film = Str ''GaN'' \<and> substrate = Str ''Si'' \<and> substrate_t = Str ''650''
                 \<and> carrier_gas = Str ''empty''"
    by simp
  with g show ?thesis by (simp add: merge_summary_def)
qed

section \<open>The float64 quotient on exact divisions\<close>

lemma bitlen_le: "n < 2 ^ k \<Longrightarrow> bitlen n \<le> k"
proof (induction k arbitrary: n)
  case 0
  then show ?case by (simp add: bitlen.simps)
next
  case (Suc k)
  then have "n div 2 < 2 ^ k" by auto
  then have "bitlen (n div 2) \<le> k" by (rule Suc.IH)
  then show ?case by (subst bitlen.simps) simp
qed

lemma bitlen_pos: "0 < n \<Longrightarrow> 0 < bitlen n"
  by (subst bitlen.simps) simp

lemma bitlen_lower: "0 < n \<Longrightarrow> 2 ^ (bitlen n - 1) \<le> n"
proof (induction n rule: bitlen.induct)
  case (1 n)
  show ?case
  proof (cases "n div 2 = 0")
    case True
    with 1(2) have "n = 1" by (simp add: div_eq_0_iff)
    then show ?thesis by (simp add: bitlen.simps)
  next
    case False
    then have p: "0 < n div 2" by simp
    with 1 have ih: "2 ^ (bitlen (n div 2) - 1) \<le> n div 2" by simp
    have b: "bitlen n = Suc (bitlen (n div 2))" using 1(2) by (subst bitlen.simps) simp
    have "0 < bitlen (n div 2)" using p by (rule bitlen_pos)
    then have "2 ^ (bitlen n - 1) = 2 * 2 ^ (bitlen (n div 2) - 1)"
      using b by (cases "bitlen (n div 2)") simp_all
    also have "\<dots> \<le> 2 * (n div 2)" using ih by simp
    also have "\<dots> \<le> n" by simp
    finally show ?thesis .
  qed
qed

lemma floor_log2_of_nat:
  assumes "0 < n"
  shows "floor_log2 (of_nat n) = int (bitlen n) - 1"
proof -
  have b1: "bitlen (Suc 0) = 1" by (simp add: bitlen.simps)
  have "(2::rat) powi (int (bitlen n) - 1) = 2 ^ (bitlen n - 1)"
    using bitlen_pos [OF assms] by (simp add: power_int_def nat_diff_distrib')
  also have "\<dots> = of_nat (2 ^ (bitlen n - 1))" by simp
  also have "\<dots> \<le> of_nat n" using bitlen_lower [OF assms] by (simp only: of_nat_le_iff)
  finally have "(2::rat) powi (int (bitlen n) - 1) \<le> of_nat n" .
  then show ?thesis by (simp add: floor_log2_def b1)
qed

lemma round_half_even_of_int: "round_half_even (of_int m) = m"
  by (simp add: round_half_even_def)

lemma float64_of_nat:
  assumes "n < 2 ^ 53"
  shows "float64 (of_nat n) = of_nat n"
proof (cases "n = 0")
  case True
  then show ?thesis by (simp add: float64_def)
next
  case False
  then have pos: "0 < n" by simp
  have le: "bitlen n \<le> 53" using assms by (rule bitlen_le)
  let ?s = "53 - bitlen n"
  have e: "floor_log2 \<bar>of_nat n\<bar> - 52 = - int ?s"
    using le by (simp add: floor_log2_of_nat [OF pos])
  have u: "(2::rat) powi (- int ?s) = inverse (2 ^ ?s)"
    by (simp add: power_int_minus)
  have "(of_nat n :: rat) / inverse (2 ^ ?s) = of_int (int (n * 2 ^ ?s))"
    by (simp add: field_simps)
  then have r: "round_half_even ((of_nat n :: rat) / inverse (2 ^ ?s)) = int (n * 2 ^ ?s)"
    by (simp only: round_half_even_of_int)
  have "float64 (of_nat n) = of_int (int (n * 2 ^ ?s)) * inverse (2 ^ ?s)"
    using False by (simp only: float64_def Let_def e u r) simp
  also have "\<dots> = of_nat n" by (simp add: field_simps)
  finally show ?thesis .
qed

lemma true_divide_exact:
  assumes "0 < g" and "t = g * q" and "t < 2 ^ 53"
  shows "true_divide t g = Float (of_nat q)"
proof -
  have ft: "float64 (of_nat t) = of_nat t" using assms(3) by (rule float64_of_nat)
  have "q \<le> t" using assms(1,2) by simp
  then have fq: "float64 (of_nat q) = of_nat q" using assms(3) by (simp add: float64_of_nat)
  show ?thesis
  proof (cases "q = 0")
    case True
    with assms(1,2) show ?thesis by (simp add: true_divide_def float64_def)
  next
    case False
    then have "g \<le> t" using assms(2) by simp
    then have fg: "float64 (of_nat g) = of_nat g" using assms(3) by (simp add: float64_of_nat)
    have "(of_nat t :: rat) / of_nat g = of_nat q" using assms(1,2) by simp
    with assms(1) ft fg fq show ?thesis by (simp add: true_divide_def)
  qed
qed

text \<open>
  Where the Growth Time divides the Thickness and the Thickness is below \<open>2\<^sup>5\<^sup>3\<close>, no
  rounding takes place: the Growth Rate computed from two digit strings is the float64 of
  the integer quotient.
\<close>

theorem growth_rate_exact_quotient:
  assumes "digit_string t" and "digit_string g"
    and "0 < nat_of_digits g" and "nat_of_digits g \<le> 18446744073709551615"
    and "nat_of_digits t = nat_of_digits g * q"
    and "nat_of_digits t < 2 ^ 53"
  shows "growth_rate t g = Inr (Float (of_nat q))"
proof -
  have "nat_of_digits t \<le> 18446744073709551615" using assms(6) by simp
  with assms(1) have t: "to_numeric t = Inr (nat_of_digits t)" by (simp add: to_numeric_digits)
  have g: "to_numeric g = Inr (nat_of_digits g)" using assms(2,4) by (simp add: to_numeric_digits)
  have "true_divide (nat_of_digits t) (nat_of_digits g) = Float (of_nat q)"
    using assms(3,5,6) by (rule true_divide_exact)
  with t g show ?thesis by (simp add: growth_rate_def)
qed

theorem growth_rate_exact_quotient_witness:
  "growth_rate ''600'' ''120'' = Inr (Float 5)"
proof -
  have dt: "digit_string ''600''" by (simp add: digit_string_def is_digit_def)
  have dg: "digit_string ''120''" by (simp add: digit_string_def is_digit_def)
  have nt: "nat_of_digits ''600'' = 600" by (simp add: nat_of_digits_def)
  have ng: "nat_of_digits ''120'' = 120" by (simp add: nat_of_digits_def)
  from growth_rate_exact_quotient [OF dt dg, of 5] nt ng show ?thesis by simp
qed

section \<open>A desynchronized run never appends\<close>

lemma length_summary_dict_le: "length (summary_dict hs vs) \<le> length vs"
proof -
  have "length (summary_dict hs vs) = card (fst ` set (summary_dict hs vs))"
    using summary_dict_distinct [of hs vs] by (metis distinct_card length_map set_map)
  also have "\<dots> = card (set (take (length vs) hs))" by (simp only: summary_dict_keys)
  also have "\<dots> \<le> length (take (length vs) hs)" by (rule card_length)
  also have "\<dots> \<le> length vs" by simp
  finally show ?thesis .
qed

lemma length_make_record_le: "length (make_record hs vs) \<le> length vs"
  using length_summary_dict_le [of hs vs] by (simp add: make_record_def one_row_frame_def)

lemma fill_calculated_cell_length:
  assumes "wf_frame df" and "''Growth Rate'' \<in> set (map fst df)"
    and "fill_calculated_cell df = Inr df'"
  shows "length df' = length df"
proof -
  from assms(3) consider (same) "df' = df"
    | (set) x r where "loc0 df ''Thickness'' = Inr x" "df' = set_loc0 df ''Growth Rate'' r"
    using fill_calculated_cell_result by blast
  then show ?thesis
  proof cases
    case same
    then show ?thesis by simp
  next
    case set
    with assms(1) have "nrows df \<noteq> 0" by (auto dest: loc0_has_row)
    then have "map fst df' = map fst df"
      using set(2) assms(2) by (simp add: set_loc0_names)
    then show ?thesis by (metis length_map)
  qed
qed

text \<open>
  The file name and the test of the merge use the number of headers, the file holds the
  columns of the record. When the headers outnumber the values, the record has fewer
  columns than headers: a later run that finds this file and has the same number of
  headers replaces it, so its row is lost instead of kept above the new one.
\<close>

theorem desynchronized_file_is_replaced:
  assumes "length vs < length hs"
    and "''Growth Rate'' \<in> set (map fst (make_record hs vs))"
    and "fill_calculated_cell (make_record hs vs) = Inr written"
  shows "length written < length hs
       \<and> merge_summary (length hs) new_dataframe (Some written) = new_dataframe"
proof -
  have "wf_frame (make_record hs vs)"
    by (simp add: make_record_def one_row_frame_wf summary_dict_distinct)
  then have "length written = length (make_record hs vs)"
    using assms(2,3) by (rule fill_calculated_cell_length)
  also have "\<dots> \<le> length vs" by (rule length_make_record_le)
  finally have "length written < length hs" using assms(1) by simp
  then show ?thesis by (simp add: merge_summary_def)
qed

theorem desynchronized_file_is_replaced_witness:
  "merge_summary 6
     [(''Thickness'', [Str ''empty'']), (''Growth Rate'', [Str ''put calc here'']),
      (''Partial Pressure'', [Str ''hex'']), (''Phase'', [Str ''Y'']),
      (''Collaborator'', [Str ''put notes here''])]
     (Some [(''Thickness'', [Str ''empty'']), (''Growth Rate'', [Str ''put calc here'']),
            (''Partial Pressure'', [Str ''cubic'']), (''Phase'', [Str ''X'']),
            (''Collaborator'', [Str ''put notes here''])])
   = [(''Thickness'', [Str ''empty'']), (''Growth Rate'', [Str ''put calc here'']),
      (''Partial Pressure'', [Str ''hex'']), (''Phase'', [Str ''Y'']),
      (''Collaborator'', [Str ''put notes here''])]"
proof -
  let ?hs = "[''Thickness'', ''Growth Rate'', ''Partial Pressure'', ''Phase'', ''Collaborator'',
              ''Notes'']"
  let ?vs = "[Str ''empty'', Str ''put calc here'', Str ''cubic'', Str ''X'', Str ''put notes here'']"
  let ?written = "[(''Thickness'', [Str ''empty'']), (''Growth Rate'', [Str ''put calc here'']),
            (''Partial Pressure'', [Str ''cubic'']), (''Phase'', [Str ''X'']),
            (''Collaborator'', [Str ''put notes here''])]"
  have l: "length ?vs < length ?hs" by simp
  have "distinct (take (length ?vs) ?hs)" by simp
  then have "summary_dict ?hs ?vs = zip ?hs ?vs" by (rule summary_dict_positional)
  then have r: "make_record ?hs ?vs = ?written"
    by (simp add: make_record_def one_row_frame_def)
  have k: "''Growth Rate'' \<in> set (map fst (make_record ?hs ?vs))" by (simp add: r)
  have f: "fill_calculated_cell (make_record ?hs ?vs) = Inr ?written"
    by (simp add: r fill_calculated_cell_def loc0_def isnumeric_def isnumeric_char_def
        is_digit_def)
  have six: "length ?hs = 6" by simp
  from desynchronized_file_is_replaced [OF l k f,
      of "[(''Thickness'', [Str ''empty'']), (''Growth Rate'', [Str ''put calc here'']),
           (''Partial Pressure'', [Str ''hex'']), (''Phase'', [Str ''Y'']),
           (''Collaborator'', [Str ''put notes here''])]", unfolded six]
  show ?thesis by (rule conjunct2)
qed

section \<open>The errors of a run\<close>

lemma map_of_foldl_update:
  "map_of (foldl (\<lambda>d (k, v). AList.update k v d) d ps) = map_of d ++ map_of (rev ps)"
proof (induction ps arbitrary: d)
  case Nil
  then show ?case by simp
next
  case (Cons p ps)
  obtain k v where p: "p = (k, v)" by (cases p)
  have "map_of (foldl (\<lambda>d (k, v). AList.update k v d) (AList.update k v d) ps)
          = map_of (AList.update k v d) ++ map_of (rev ps)"
    by (rule Cons.IH)
  also have "\<dots> = (map_of d ++ [k \<mapsto> v]) ++ map_of (rev ps)"
    by (simp add: update_conv')
  also have "\<dots> = map_of d ++ map_of (rev ((k, v) # ps))"
    by (simp add: map_add_assoc)
  finally show ?case by (simp add: p)
qed

lemma map_of_rev_zip_unique:
  assumes "k \<notin> set xs" and "k \<notin> set ys" and "length xs < length vs"
  shows "map_of (rev (zip (xs @ k # ys) vs)) k = Some (vs ! length xs)"
proof -
  let ?n = "length xs"
  have d: "drop ?n vs = vs ! ?n # drop (Suc ?n) vs"
    using assms(3) by (simp add: Cons_nth_drop_Suc)
  have z: "zip (xs @ k # ys) vs
             = zip xs (take ?n vs) @ (k, vs ! ?n) # zip ys (drop (Suc ?n) vs)"
    by (simp add: zip_append1 d)
  have "k \<notin> fst ` set (zip ys (drop (Suc ?n) vs))"
    using assms(2) by (auto dest: set_zip_leftD)
  then have "map_of (rev (zip ys (drop (Suc ?n) vs))) k = None"
    by (simp add: map_of_eq_None_iff)
  then show ?thesis by (simp add: z map_add_def)
qed

lemma loc0_make_record_unique:
  assumes "k \<notin> set xs" and "k \<notin> set ys" and "length xs < length vs"
  shows "loc0 (make_record (xs @ k # ys) vs) k = Inr (vs ! length xs)"
  using map_of_rev_zip_unique [OF assms]
  by (simp add: loc0_def make_record_def one_row_frame_map_of summary_dict_def
      map_of_foldl_update)

lemma fill_column_str:
  assumes "header \<in> fst ` set sheet"
  shows "\<exists>x. \<forall>summary. fill_column fstr summary sheet header = Inr (summary @ [Str x])"
proof -
  from assms obtain col where "map_of sheet header = Some col"
    by (metis map_of_eq_None_iff not_Some_eq)
  then show ?thesis
    by (cases col)
      (auto simp: fill_column_def getitem_def series_at0_def)
qed

lemma not_matches_thickness: "\<not> matches ''Thickness''"
  by code_simp

lemma not_matches_growth_time: "\<not> matches ''Growth Time''"
  by code_simp

lemma scan_headers_match: "h \<in> set (scan_headers gr) \<Longrightarrow> matches h"
  by (auto simp: scan_headers_def matches_match_count)

lemma fill_calculated_cell_strings:
  "loc0 df ''Thickness'' = Inr (Str t) \<Longrightarrow> loc0 df ''Growth Time'' = Inr (Str g) \<Longrightarrow>
   (\<exists>df'. fill_calculated_cell df = Inr df') \<or> fill_calculated_cell df = Inl ValueError"
  by (auto simp: fill_calculated_cell_def growth_rate_def to_numeric_def split: sum.splits)

lemma new_record_errors:
  assumes "required_columns wb"
  shows "(\<exists>n df. new_record fstr wb = Inr (n, df)) \<or> new_record fstr wb = Inl ValueError"
proof -
  let ?six = "[''Sample'', ''Date'', ''Film'', ''Substrate'', ''Substrate T'', ''Carrier Gas'']"
  have six: "set ?six \<subseteq> fst ` set (overview wb)"
    using assms by (auto simp: required_columns_def overview_headers_def)
  from fill_columns_present [OF six, of fstr] obtain d0
    where d0: "length d0 = length ?six"
      "\<And>s. fill_columns fstr s (overview wb) ?six = Inr (s @ d0)"
    by blast
  have "''Growth Time'' \<in> fst ` set (overview wb)"
    using assms by (auto simp: required_columns_def overview_headers_def)
  then obtain g
    where g: "\<And>s. fill_column fstr s (overview wb) ''Growth Time'' = Inr (s @ [Str g])"
    using fill_column_str [of "''Growth Time''" "overview wb" fstr] by auto
  have "''Thickness'' \<in> fst ` set (afm_reflectance_sem wb)"
    using assms by (simp add: required_columns_def)
  then obtain t
    where t: "\<And>s. fill_column fstr s (afm_reflectance_sem wb) ''Thickness'' = Inr (s @ [Str t])"
    using fill_column_str [of "''Thickness''" "afm_reflectance_sem wb" fstr] by auto
  from assms obtain p
    where p: "\<And>s. fill_column fstr s (hrxrd wb) ''Phase'' = Inr (s @ [p])"
    using fill_column_present [of "''Phase''" "hrxrd wb" fstr]
    by (auto simp: required_columns_def)
  from assms obtain c
    where c: "\<And>s. fill_column fstr s (sample_cut wb) ''Collaborator'' = Inr (s @ [c])"
    using fill_column_present [of "''Collaborator''" "sample_cut wb" fstr]
    by (auto simp: required_columns_def)
  let ?S = "scan_headers (growth_run wb)"
  let ?hs = "overview_headers @ [''Thickness'', ''Growth Rate''] @ ?S
               @ [''Phase'', ''Collaborator'', ''Notes'']"
  let ?vs = "d0 @ [Str g, Str t, Str ''put calc here''] @ scan_values (growth_run wb)
               @ [p, c, Str ''put notes here'']"
  have split7: "overview_headers = ?six @ [''Growth Time'']"
    by (simp add: overview_headers_def)
  have "\<And>s. fill_columns fstr s (overview wb) (?six @ [''Growth Time''])
               = Inr (s @ d0 @ [Str g])"
  proof -
    fix s
    have fc: "\<And>xs ys s. fill_columns fstr s (overview wb) (xs @ ys) =
                (case fill_columns fstr s (overview wb) xs of
                   Inl e \<Rightarrow> Inl e
                 | Inr s' \<Rightarrow> fill_columns fstr s' (overview wb) ys)"
    proof -
      fix xs ys s
      show "fill_columns fstr s (overview wb) (xs @ ys) =
                (case fill_columns fstr s (overview wb) xs of
                   Inl e \<Rightarrow> Inl e
                 | Inr s' \<Rightarrow> fill_columns fstr s' (overview wb) ys)"
        by (induction xs arbitrary: s) (auto split: sum.splits)
    qed
    have "fill_columns fstr s (overview wb) (?six @ [''Growth Time'']) =
            (case fill_columns fstr s (overview wb) ?six of
               Inl e \<Rightarrow> Inl e
             | Inr s' \<Rightarrow> fill_columns fstr s' (overview wb) [''Growth Time''])"
      by (rule fc)
    also have "\<dots> = fill_columns fstr (s @ d0) (overview wb) [''Growth Time'']"
      by (simp only: d0(2) sum.case)
    also have "\<dots> = Inr (s @ d0 @ [Str g])" by (simp add: g)
    finally show "fill_columns fstr s (overview wb) (?six @ [''Growth Time''])
            = Inr (s @ d0 @ [Str g])" .
  qed
  then have ov: "fill_columns fstr [] (overview wb) overview_headers = Inr (d0 @ [Str g])"
    using split7 by (metis append_Nil)
  have a: "assemble fstr wb = Inr (?hs, ?vs)"
    by (simp add: assemble_def ov t p c scan_columns_sheet)
  have th: "loc0 (make_record ?hs ?vs) ''Thickness'' = Inr (Str t)"
  proof -
    have "''Thickness'' \<notin> set overview_headers" by (simp add: overview_headers_def)
    moreover have "''Thickness'' \<notin> set ([''Growth Rate''] @ ?S @ [''Phase'', ''Collaborator'', ''Notes''])"
      using not_matches_thickness scan_headers_match [of "''Thickness''" "growth_run wb"] by auto
    moreover have "length overview_headers < length ?vs"
      using d0(1) by (simp add: overview_headers_def)
    ultimately have "loc0 (make_record (overview_headers @ ''Thickness''
                        # ([''Growth Rate''] @ ?S @ [''Phase'', ''Collaborator'', ''Notes''])) ?vs)
                       ''Thickness'' = Inr (?vs ! length overview_headers)"
      by (rule loc0_make_record_unique)
    moreover have "?vs ! length overview_headers = Str t"
      using d0(1) by (simp add: overview_headers_def nth_append)
    ultimately show ?thesis by simp
  qed
  have gt: "loc0 (make_record ?hs ?vs) ''Growth Time'' = Inr (Str g)"
  proof -
    have "''Growth Time'' \<notin> set (?six)" by (simp add: overview_headers_def)
    moreover have "''Growth Time'' \<notin> set ([''Thickness'', ''Growth Rate''] @ ?S
                      @ [''Phase'', ''Collaborator'', ''Notes''])"
      using not_matches_growth_time scan_headers_match [of "''Growth Time''" "growth_run wb"]
      by auto
    moreover have "length (?six) < length ?vs"
      using d0(1) by (simp add: overview_headers_def)
    ultimately have "loc0 (make_record (?six @ ''Growth Time''
                        # ([''Thickness'', ''Growth Rate''] @ ?S
                             @ [''Phase'', ''Collaborator'', ''Notes''])) ?vs)
                       ''Growth Time'' = Inr (?vs ! length (?six))"
      by (rule loc0_make_record_unique)
    moreover have "?vs ! length (?six) = Str g"
      using d0(1) by (simp add: overview_headers_def nth_append)
    ultimately show ?thesis by (simp add: overview_headers_def)
  qed
  from fill_calculated_cell_strings [OF th gt] a show ?thesis
    by (auto simp: new_record_def)
qed

text \<open>
  Whatever the GrowthRun sheet holds, and so whether or not headers and values are
  desynchronized, a run on a workbook whose sheets have the columns read by name either
  writes the summary file or raises the ValueError of \<^verbatim>\<open>pd.to_numeric\<close>: the record always
  has its Thickness and Growth Time strings, and no KeyError or AttributeError arises.
\<close>

theorem generate_overview_errors:
  assumes "required_columns wb"
  shows "(\<exists>dir'. generate_overview fstr wb dir = Inr dir')
       \<or> generate_overview fstr wb dir = Inl ValueError"
  using new_record_errors [OF assms, of fstr]
  by (auto simp: generate_overview_def)

theorem generate_overview_errors_witness:
  "generate_overview (\<lambda>r. [])
     \<lparr>overview = [(''Sample'', [Str ''A1'']), (''Date'', [Str ''2024-01-01'']),
                  (''Film'', [Str ''GaN'']), (''Substrate'', [Str ''Si'']),
                  (''Substrate T'', [Intg 650]), (''Carrier Gas'', [Null]),
                  (''Growth Time'', [Null])],
      growth_run = [(''Partial Pressure'', [])],
      afm_reflectance_sem = [(''Thickness'', [Str ''600''])],
      hrxrd = [(''Phase'', [Str ''cubic''])],
      sample_cut = [(''Collaborator'', [Str ''X''])]\<rparr>
     Map.empty
   = Inr [''summary_13cols.xlsx'' \<mapsto>
           [(''Sample'', [Str ''A1'']), (''Date'', [Str ''2024-01-01'']),
            (''Film'', [Str ''GaN'']), (''Substrate'', [Str ''Si'']),
            (''Substrate T'', [Str ''650'']), (''Carrier Gas'', [Str ''empty'']),
            (''Growth Time'', [Str ''empty'']), (''Thickness'', [Str ''600'']),
            (''Growth Rate'', [Str ''put calc here'']), (''Partial Pressure'', [Str ''cubic'']),
            (''Phase'', [Str ''X'']), (''Collaborator'', [Str ''put notes here''])]]"
proof -
  let ?wb = "\<lparr>overview = [(''Sample'', [Str ''A1'']), (''Date'', [Str ''2024-01-01'']),
                  (''Film'', [Str ''GaN'']), (''Substrate'', [Str ''Si'']),
                  (''Substrate T'', [Intg 650]), (''Carrier Gas'', [Null]),
                  (''Growth Time'', [Null])],
      growth_run = [(''Partial Pressure'', [])],
      afm_reflectance_sem = [(''Thickness'', [Str ''600''])],
      hrxrd = [(''Phase'', [Str ''cubic''])],
      sample_cut = [(''Collaborator'', [Str ''X''])]\<rparr>"
  have r: "required_columns ?wb" by (simp add: required_columns_def overview_headers_def)
  have a: "assemble (\<lambda>r. []) ?wb =
             Inr ([''Sample'', ''Date'', ''Film'', ''Substrate'', ''Substrate T'', ''Carrier Gas'',
                   ''Growth Time'', ''Thickness'', ''Growth Rate'', ''Partial Pressure'',
                   ''Phase'', ''Collaborator'', ''Notes''],
                  [Str ''A1'', Str ''2024-01-01'', Str ''GaN'', Str ''Si'', Str ''650'',
                   Str ''empty'', Str ''empty'', Str ''600'', Str ''put calc here'', Str ''cubic'',
                   Str ''X'', Str ''put notes here''])"
    by code_simp
  let ?hs = "[''Sample'', ''Date'', ''Film'', ''Substrate'', ''Substrate T'', ''Carrier Gas'',
                   ''Growth Time'', ''Thickness'', ''Growth Rate'', ''Partial Pressure'',
                   ''Phase'', ''Collaborator'', ''Notes'']"
  let ?vs = "[Str ''A1'', Str ''2024-01-01'', Str ''GaN'', Str ''Si'', Str ''650'',
                   Str ''empty'', Str ''empty'', Str ''600'', Str ''put calc here'', Str ''cubic'',
                   Str ''X'', Str ''put notes here'']"
  have "distinct (take (length ?vs) ?hs)" by simp
  then have "summary_dict ?hs ?vs = zip ?hs ?vs" by (rule summary_dict_positional)
  then have m: "make_record ?hs ?vs =
           [(''Sample'', [Str ''A1'']), (''Date'', [Str ''2024-01-01'']),
            (''Film'', [Str ''GaN'']), (''Substrate'', [Str ''Si'']),
            (''Substrate T'', [Str ''650'']), (''Carrier Gas'', [Str ''empty'']),
            (''Growth Time'', [Str ''empty'']), (''Thickness'', [Str ''600'']),
            (''Growth Rate'', [Str ''put calc here'']), (''Partial Pressure'', [Str ''cubic'']),
            (''Phase'', [Str ''X'']), (''Collaborator'', [Str ''put notes here''])]"
    by (simp add: make_record_def one_row_frame_def)
  have e: "\<not> isnumeric ''empty''"
    by (simp add: isnumeric_def isnumeric_char_def is_digit_def)
  have f: "summary_filename 13 = ''summary_13cols.xlsx''"
    by (simp add: summary_filename_def str_of_nat.simps)
  have n: "new_record (\<lambda>r. []) ?wb = Inr (13,
           [(''Sample'', [Str ''A1'']), (''Date'', [Str ''2024-01-01'']),
            (''Film'', [Str ''GaN'']), (''Substrate'', [Str ''Si'']),
            (''Substrate T'', [Str ''650'']), (''Carrier Gas'', [Str ''empty'']),
            (''Growth Time'', [Str ''empty'']), (''Thickness'', [Str ''600'']),
            (''Growth Rate'', [Str ''put calc here'']), (''Partial Pressure'', [Str ''cubic'']),
            (''Phase'', [Str ''X'']), (''Collaborator'', [Str ''put notes here''])])"
    using e isnumeric_600
    by (simp add: new_record_def a m fill_calculated_cell_def loc0_def)
  have "generate_overview (\<lambda>r. []) ?wb Map.empty \<noteq> Inl ValueError"
    by (simp add: generate_overview_def n)
  with generate_overview_errors [OF r, of "\<lambda>r. []" Map.empty]
  obtain dir' where "generate_overview (\<lambda>r. []) ?wb Map.empty = Inr dir'" by auto
  moreover have "generate_overview (\<lambda>r. []) ?wb Map.empty =
      Inr [''summary_13cols.xlsx'' \<mapsto>
           [(''Sample'', [Str ''A1'']), (''Date'', [Str ''2024-01-01'']),
            (''Film'', [Str ''GaN'']), (''Substrate'', [Str ''Si'']),
            (''Substrate T'', [Str ''650'']), (''Carrier Gas'', [Str ''empty'']),
            (''Growth Time'', [Str ''empty'']), (''Thickness'', [Str ''600'']),
            (''Growth Rate'', [Str ''put calc here'']), (''Partial Pressure'', [Str ''cubic'']),
            (''Phase'', [Str ''X'']), (''Collaborator'', [Str ''put notes here''])]]"
    by (simp add: generate_overview_def n f merge_summary_def)
  ultimately show ?thesis by simp
qed

end
